theory Spec2Isabelle
  imports Main "HOL-Library.Signed_Division"
begin

section \<open>Strings, buffers and numbers of the platform\<close>

text \<open>
  A JavaScript string is modelled by its UTF-8 byte sequence (\<open>string\<close>, a list of 8-bit
  characters), and a \<open>Buffer\<close> by the same type, so that \<open>Buffer.from(s, "utf8")\<close> and
  \<open>buf.toString("utf8")\<close> are the identity. This is exact for well-formed text; the
  replacement character that \<open>toString\<close> substitutes for ill-formed bytes is not modelled.
  White space (\<open>\s\<close>, \<open>trim\<close>, the prefix that \<open>parseInt\<close> skips) is the white space of
  the language, each code point in its UTF-8 bytes; \<open>toLowerCase\<close> is modelled on its
  ASCII part.
\<close>

abbreviation NL :: char where
  "NL \<equiv> CHR 0x0A"

text \<open>
  The white-space and line-terminator code points of the language. One byte: U+0009,
  U+000A, U+000B, U+000C, U+000D, U+0020. Two bytes: U+00A0 (\<open>C2 A0\<close>). Three bytes:
  U+1680 (\<open>E1 9A 80\<close>), U+2000 to U+200A (\<open>E2 80 80\<close> to \<open>E2 80 8A\<close>), U+2028 and
  U+2029 (\<open>E2 80 A8\<close>, \<open>E2 80 A9\<close>), U+202F (\<open>E2 80 AF\<close>), U+205F (\<open>E2 81 9F\<close>),
  U+3000 (\<open>E3 80 80\<close>) and U+FEFF (\<open>EF BB BF\<close>).
\<close>

definition isWhiteSpace :: "char \<Rightarrow> bool" where
  "isWhiteSpace c = (c = CHR '' '' \<or> c = CHR 0x09 \<or> c = NL \<or> c = CHR 0x0B \<or> c = CHR 0x0C \<or> c = CHR 0x0D)"

definition isWhiteSpace2 :: "char \<Rightarrow> char \<Rightarrow> bool" where
  "isWhiteSpace2 a b = (a = CHR 0xC2 \<and> b = CHR 0xA0)"

definition isWhiteSpace3 :: "char \<Rightarrow> char \<Rightarrow> char \<Rightarrow> bool" where
  "isWhiteSpace3 a b c =
     ((a = CHR 0xE1 \<and> b = CHR 0x9A \<and> c = CHR 0x80)
      \<or> (a = CHR 0xE2 \<and> b = CHR 0x80
          \<and> ((0x80 \<le> (of_char c :: nat) \<and> (of_char c :: nat) \<le> 0x8A)
               \<or> c = CHR 0xA8 \<or> c = CHR 0xA9 \<or> c = CHR 0xAF))
      \<or> (a = CHR 0xE2 \<and> b = CHR 0x81 \<and> c = CHR 0x9F)
      \<or> (a = CHR 0xE3 \<and> b = CHR 0x80 \<and> c = CHR 0x80)
      \<or> (a = CHR 0xEF \<and> b = CHR 0xBB \<and> c = CHR 0xBF))"

text \<open>The number of bytes of the white-space code point at the start (at the end) of a
  string, 0 when the string does not start (end) with one.\<close>

definition wsPrefixLen :: "string \<Rightarrow> nat" where
  "wsPrefixLen s =
     (case s of
        [] \<Rightarrow> 0
      | a # r \<Rightarrow>
          if isWhiteSpace a then 1
          else (case r of
                  [] \<Rightarrow> 0
                | b # r2 \<Rightarrow>
                    if isWhiteSpace2 a b then 2
                    else (case r2 of
                            [] \<Rightarrow> 0
                          | c # _ \<Rightarrow> if isWhiteSpace3 a b c then 3 else 0)))"

definition wsSuffixLen :: "string \<Rightarrow> nat" where
  "wsSuffixLen s =
     (case rev s of
        [] \<Rightarrow> 0
      | c # r \<Rightarrow>
          if isWhiteSpace c then 1
          else (case r of
                  [] \<Rightarrow> 0
                | b # r2 \<Rightarrow>
                    if isWhiteSpace2 b c then 2
                    else (case r2 of
                            [] \<Rightarrow> 0
                          | a # _ \<Rightarrow> if isWhiteSpace3 a b c then 3 else 0)))"

function trimStart :: "string \<Rightarrow> string" where
  "trimStart s = (if s = [] \<or> wsPrefixLen s = 0 then s else trimStart (drop (wsPrefixLen s) s))"
  by pat_completeness auto
termination
  by (relation "measure length") auto

declare trimStart.simps [simp del]

function trimEnd :: "string \<Rightarrow> string" where
  "trimEnd s = (if s = [] \<or> wsSuffixLen s = 0 then s else trimEnd (take (length s - wsSuffixLen s) s))"
  by pat_completeness auto
termination
  by (relation "measure length") auto

declare trimEnd.simps [simp del]

text \<open>\<open>s.trim()\<close>\<close>

definition trim :: "string \<Rightarrow> string" where
  "trim s = trimEnd (trimStart s)"

definition lowerChar :: "char \<Rightarrow> char" where
  "lowerChar c = (let n = of_char c :: nat in if 65 \<le> n \<and> n \<le> 90 then char_of (n + 32) else c)"

definition toLowerCase :: "string \<Rightarrow> string" where
  "toLowerCase s = map lowerChar s"

definition startsWith :: "string \<Rightarrow> string \<Rightarrow> bool" where
  "startsWith s p = (take (length p) s = p)"

fun join :: "string \<Rightarrow> string list \<Rightarrow> string" where
  "join sep [] = []"
| "join sep [x] = x"
| "join sep (x # y # ys) = x @ sep @ join sep (y # ys)"

text \<open>
  Numbers. The values that reach the formatter are integers or \<open>NaN\<close> (the results of
  \<open>parseInt\<close> and of sums and differences of them). \<open>Whole n\<close> stands for the double
  that is the integer \<open>n\<close>, and the operations on it are the exact integer operations:
  that is what double arithmetic does as long as every operand and result lies strictly
  between \<open>- 2^53\<close> and \<open>2^53\<close>. Beyond that range the platform rounds, and this model
  says nothing; the theorems about numbers carry the bound.
\<close>

datatype number = NaN | Whole int

fun number_plus :: "number \<Rightarrow> number \<Rightarrow> number" where
  "number_plus (Whole a) (Whole b) = Whole (a + b)"
| "number_plus _ _ = NaN"

fun number_minus :: "number \<Rightarrow> number \<Rightarrow> number" where
  "number_minus (Whole a) (Whole b) = Whole (a - b)"
| "number_minus _ _ = NaN"

text \<open>The numbers within the range in which the model is exact.\<close>

definition exactNumber :: "number \<Rightarrow> bool" where
  "exactNumber x = (case x of NaN \<Rightarrow> True | Whole n \<Rightarrow> - (2 ^ 53) < n \<and> n < 2 ^ 53)"

definition digitChar :: "nat \<Rightarrow> char" where
  "digitChar d = char_of (48 + d)"

fun showNat :: "nat \<Rightarrow> string" where
  "showNat n = (if n < 10 then [digitChar n] else showNat (n div 10) @ [digitChar (n mod 10)])"

declare showNat.simps [simp del]

text \<open>\<open>String(n)\<close> for an integer \<open>n\<close>.\<close>

definition showInt :: "int \<Rightarrow> string" where
  "showInt n = (if n < 0 then CHR ''-'' # showNat (nat (- n)) else showNat (nat n))"

text \<open>\<open>s.padStart(len, "0")\<close>: pads on the left, never truncates.\<close>

definition padStart :: "string \<Rightarrow> nat \<Rightarrow> string" where
  "padStart s len = replicate (len - length s) (CHR ''0'') @ s"

definition isDigit :: "char \<Rightarrow> bool" where
  "isDigit c = (48 \<le> (of_char c :: nat) \<and> (of_char c :: nat) \<le> 57)"

definition digitsValue :: "string \<Rightarrow> nat" where
  "digitsValue ds = foldl (\<lambda>acc c. 10 * acc + (of_char c - 48)) 0 ds"

text \<open>\<open>parseInt(s, 10)\<close>: leading white space, an optional sign, then the longest run of
  decimal digits; \<open>NaN\<close> when there is no digit. The value is exact below \<open>2^53\<close>.\<close>

definition parseInt :: "string \<Rightarrow> number" where
  "parseInt s =
     (let t = trimStart s;
          neg = (case t of c # r \<Rightarrow> c = CHR ''-'' | [] \<Rightarrow> False);
          u = (case t of c # r \<Rightarrow> if c = CHR ''-'' \<or> c = CHR ''+'' then r else t | [] \<Rightarrow> []);
          ds = takeWhile isDigit u
      in if ds = [] then NaN
         else Whole ((if neg then - 1 else 1) * int (digitsValue ds)))"

section \<open>Transcript segments and their renderings\<close>

text \<open>The field \<open>text\<close> of a segment is called \<open>segmentText\<close> here.\<close>

record TranscriptSegment =
  segmentText :: string
  startMs :: number
  durationMs :: number

text \<open>
  \<open>msToSrtTimestamp\<close>: \<open>Math.floor(a / b)\<close> is \<open>div\<close> (floor division, the divisors
  are positive) and the remainder operator \<open>%\<close> is \<open>smod\<close>, which takes the sign of
  the dividend. On \<open>NaN\<close> every field is \<open>NaN\<close>, printed as such. The division by
  1000 is a division of doubles; its floor is the integer quotient for every integer
  strictly between \<open>- 2^53\<close> and \<open>2^53\<close>.
\<close>

definition pad :: "int \<Rightarrow> nat \<Rightarrow> string" where
  "pad n len = padStart (showInt n) len"

fun msToSrtTimestamp :: "number \<Rightarrow> string" where
  "msToSrtTimestamp NaN = ''NaN:NaN:NaN,NaN''"
| "msToSrtTimestamp (Whole ms) =
     (let totalSeconds = ms div 1000;
          milliseconds = ms smod 1000;
          hours = totalSeconds div 3600;
          minutes = (totalSeconds smod 3600) div 60;
          seconds = totalSeconds smod 60
      in pad hours 2 @ '':'' @ pad minutes 2 @ '':'' @ pad seconds 2 @ '','' @ pad milliseconds 3)"

text \<open>\<open>.replace(/\s{2,}/g, " ")\<close>: every maximal run of two or more white-space characters
  becomes one space; a single white-space character stays as it is. The flag tells
  whether the space of the current run has been written.\<close>

function collapseFrom :: "bool \<Rightarrow> string \<Rightarrow> string" where
  "collapseFrom inRun s =
     (if s = [] then []
      else if wsPrefixLen s = 0 then hd s # collapseFrom False (tl s)
      else if inRun then collapseFrom True (drop (wsPrefixLen s) s)
      else if wsPrefixLen (drop (wsPrefixLen s) s) = 0
           then take (wsPrefixLen s) s @ collapseFrom False (drop (wsPrefixLen s) s)
      else CHR '' '' # collapseFrom True (drop (wsPrefixLen s) s))"
  by pat_completeness auto
termination
  by (relation "measure (\<lambda>(b, s). length s)") auto

declare collapseFrom.simps [simp del]

definition collapseSpaces :: "string \<Rightarrow> string" where
  "collapseSpaces s = collapseFrom False s"

definition formatAsText :: "TranscriptSegment list \<Rightarrow> string" where
  "formatAsText segments = trim (collapseSpaces (join '' '' (map segmentText segments)))"

text \<open>The callback of \<open>segments.map((seg, i) => ...)\<close> in \<open>formatAsSrt\<close>.\<close>

definition srtCue :: "TranscriptSegment \<Rightarrow> nat \<Rightarrow> string" where
  "srtCue seg i =
     (let start = msToSrtTimestamp (startMs seg);
          end = msToSrtTimestamp (number_plus (startMs seg) (durationMs seg))
      in showNat (i + 1) @ [NL] @ start @ '' --> '' @ end @ [NL] @ segmentText seg)"

fun mapIndexed :: "('a \<Rightarrow> nat \<Rightarrow> 'b) \<Rightarrow> nat \<Rightarrow> 'a list \<Rightarrow> 'b list" where
  "mapIndexed f i [] = []"
| "mapIndexed f i (x # xs) = f x i # mapIndexed f (Suc i) xs"

definition formatAsSrt :: "TranscriptSegment list \<Rightarrow> string" where
  "formatAsSrt segments = join [NL, NL] (mapIndexed srtCue 0 segments)"

section \<open>Segment parsing\<close>

text \<open>
  The documents of the transcript response. Each chain of optional members of the source
  (\<open>a?.b?.c\<close>) is one optional field here: \<open>initialSegments\<close> stands for
  \<open>elementsCommand?.transformEntityCommand?.arguments?.transformTranscriptSegmentListArguments?.overwrite?.initialSegments\<close>,
  \<open>content\<close> for \<open>snippet?.elementsAttributedString?.content\<close> and \<open>runs\<close> for
  \<open>snippet?.runs\<close>, whose elements are the optional \<open>text\<close> of each run.
\<close>

record TranscriptSegmentRenderer =
  r_startMs :: "string option"
  r_endMs :: "string option"
  content :: "string option"
  runs :: "string option list option"

record TranscriptSegmentItem =
  transcriptSegmentRenderer :: "TranscriptSegmentRenderer option"

record TranscriptAction =
  initialSegments :: "TranscriptSegmentItem list option"

record TranscriptApiResponse =
  actions :: "TranscriptAction list option"

definition orElse :: "'a option \<Rightarrow> 'a \<Rightarrow> 'a" where
  "orElse v d = (case v of None \<Rightarrow> d | Some x \<Rightarrow> x)"

text \<open>The text of a renderer before flattening: the pre-joined string, else the
  concatenated runs, else the empty string.\<close>

definition snippetText :: "TranscriptSegmentRenderer \<Rightarrow> string" where
  "snippetText renderer =
     (case content renderer of
        Some c \<Rightarrow> c
      | None \<Rightarrow> (case runs renderer of
                   Some rs \<Rightarrow> concat (map (\<lambda>r. orElse r []) rs)
                 | None \<Rightarrow> []))"

text \<open>\<open>text.replace(/\n/g, " ").trim()\<close>\<close>

definition flattenText :: "string \<Rightarrow> string" where
  "flattenText t = trim (map (\<lambda>c. if c = NL then CHR '' '' else c) t)"

text \<open>The inner loop of \<open>parseTranscriptSegments\<close> over the items of one action; the
  result list is built in the order of the items.\<close>

fun parseItems :: "TranscriptSegmentItem list \<Rightarrow> TranscriptSegment list" where
  "parseItems [] = []"
| "parseItems (item # items) =
     (case transcriptSegmentRenderer item of
        None \<Rightarrow> parseItems items
      | Some renderer \<Rightarrow>
          (let startMs = parseInt (orElse (r_startMs renderer) ''0'');
               endMs = parseInt (orElse (r_endMs renderer) ''0'');
               durationMs = number_minus endMs startMs;
               text = flattenText (snippetText renderer)
           in if text = [] then parseItems items
              else \<lparr>segmentText = text, startMs = startMs, durationMs = durationMs\<rparr> # parseItems items))"

text \<open>The outer loop over the actions: the first action with a non-empty result wins.\<close>

fun parseActions :: "TranscriptAction list \<Rightarrow> TranscriptSegment list" where
  "parseActions [] = []"
| "parseActions (action # rest) =
     (case initialSegments action of
        None \<Rightarrow> parseActions rest
      | Some segments \<Rightarrow>
          if segments = [] then parseActions rest
          else (let result = parseItems segments
                in if result \<noteq> [] then result else parseActions rest))"

definition parseTranscriptSegments :: "TranscriptApiResponse \<Rightarrow> TranscriptSegment list" where
  "parseTranscriptSegments apiResponse = parseActions (orElse (actions apiResponse) [])"

text \<open>
  What the specification (section 4.5) says of one entry, written from its words to be
  compared with the loops above. The display text is read from the single pre-joined
  string field when there is one, and else concatenates the ordered list of text runs;
  an entry that has neither, or no renderer, has no text. In the derived text the
  newlines are flattened to spaces and the result is trimmed. The start and end offsets
  are parsed from their textual fields, 0 when absent, and the duration is end - start.
\<close>

definition spec_displayText :: "TranscriptSegmentItem \<Rightarrow> string" where
  "spec_displayText item =
     (case transcriptSegmentRenderer item of
        None \<Rightarrow> []
      | Some r \<Rightarrow>
          (case content r of
             Some joined \<Rightarrow> joined
           | None \<Rightarrow>
               concat (map (\<lambda>run. case run of None \<Rightarrow> [] | Some t \<Rightarrow> t)
                           (case runs r of None \<Rightarrow> [] | Some rs \<Rightarrow> rs))))"

primrec spec_flattenNewlines :: "string \<Rightarrow> string" where
  "spec_flattenNewlines [] = []"
| "spec_flattenNewlines (c # cs) = (if c = NL then CHR '' '' else c) # spec_flattenNewlines cs"

definition spec_derivedText :: "TranscriptSegmentItem \<Rightarrow> string" where
  "spec_derivedText item = trim (spec_flattenNewlines (spec_displayText item))"

definition spec_offset :: "string option \<Rightarrow> number" where
  "spec_offset field = (case field of None \<Rightarrow> Whole 0 | Some t \<Rightarrow> parseInt t)"

definition spec_segment :: "TranscriptSegmentItem \<Rightarrow> TranscriptSegment" where
  "spec_segment item =
     \<lparr>segmentText = spec_derivedText item,
      startMs = spec_offset (Option.bind (transcriptSegmentRenderer item) r_startMs),
      durationMs = number_minus (spec_offset (Option.bind (transcriptSegmentRenderer item) r_endMs))
                                (spec_offset (Option.bind (transcriptSegmentRenderer item) r_startMs))\<rparr>"

section \<open>The transcript token\<close>

subsection \<open>Base64 and URI component coding of the platform\<close>

definition b64char :: "nat \<Rightarrow> char" where
  "b64char k =
     (if k < 26 then char_of (65 + k) else if k < 52 then char_of (71 + k)
      else if k < 62 then char_of (k - 4) else if k = 62 then CHR ''+'' else CHR ''/'')"

text \<open>The decoder accepts the URL-safe alphabet as well.\<close>

definition b64val :: "char \<Rightarrow> nat option" where
  "b64val c =
     (let n = of_char c :: nat in
      if 65 \<le> n \<and> n \<le> 90 then Some (n - 65)
      else if 97 \<le> n \<and> n \<le> 122 then Some (n - 71)
      else if 48 \<le> n \<and> n \<le> 57 then Some (n + 4)
      else if c = CHR ''+'' \<or> c = CHR ''-'' then Some 62
      else if c = CHR ''/'' \<or> c = CHR ''_'' then Some 63
      else None)"

text \<open>\<open>buf.toString("base64")\<close>\<close>

fun b64encode :: "string \<Rightarrow> string" where
  "b64encode (a # b # c # rest) =
     (let x = of_char a :: nat; y = of_char b :: nat; z = of_char c :: nat
      in [b64char (x div 4), b64char ((x mod 4) * 16 + y div 16),
          b64char ((y mod 16) * 4 + z div 64), b64char (z mod 64)] @ b64encode rest)"
| "b64encode [a, b] =
     (let x = of_char a :: nat; y = of_char b :: nat
      in [b64char (x div 4), b64char ((x mod 4) * 16 + y div 16), b64char ((y mod 16) * 4), CHR ''=''])"
| "b64encode [a] =
     (let x = of_char a :: nat
      in [b64char (x div 4), b64char ((x mod 4) * 16), CHR ''='', CHR ''=''])"
| "b64encode [] = []"

text \<open>\<open>Buffer.from(s, "base64")\<close> never fails: characters outside the alphabet are
  skipped, decoding stops at the first \<open>=\<close>, and a trailing group of two or three
  characters gives one or two bytes.\<close>

fun b64sextets :: "string \<Rightarrow> nat list" where
  "b64sextets [] = []"
| "b64sextets (c # cs) =
     (if c = CHR ''='' then []
      else (case b64val c of Some v \<Rightarrow> v # b64sextets cs | None \<Rightarrow> b64sextets cs))"

fun b64bytes :: "nat list \<Rightarrow> string" where
  "b64bytes (p # q # r # s # rest) =
     [char_of (p * 4 + q div 16), char_of ((q mod 16) * 16 + r div 4), char_of ((r mod 4) * 64 + s)]
       @ b64bytes rest"
| "b64bytes [p, q, r] = [char_of (p * 4 + q div 16), char_of ((q mod 16) * 16 + r div 4)]"
| "b64bytes [p, q] = [char_of (p * 4 + q div 16)]"
| "b64bytes _ = []"

definition b64decode :: "string \<Rightarrow> string" where
  "b64decode s = b64bytes (b64sextets s)"

definition isAlnum :: "char \<Rightarrow> bool" where
  "isAlnum c =
     (let n = of_char c :: nat
      in (48 \<le> n \<and> n \<le> 57) \<or> (65 \<le> n \<and> n \<le> 90) \<or> (97 \<le> n \<and> n \<le> 122))"

definition isUnreserved :: "char \<Rightarrow> bool" where
  "isUnreserved c = (isAlnum c \<or> c \<in> set (CHR 0x27 # ''-_.!~*()''))"

definition hexDigit :: "nat \<Rightarrow> char" where
  "hexDigit d = (if d < 10 then char_of (48 + d) else char_of (55 + d))"

definition hexVal :: "char \<Rightarrow> nat option" where
  "hexVal c =
     (let n = of_char c :: nat in
      if 48 \<le> n \<and> n \<le> 57 then Some (n - 48)
      else if 65 \<le> n \<and> n \<le> 70 then Some (n - 55)
      else if 97 \<le> n \<and> n \<le> 102 then Some (n - 87)
      else None)"

text \<open>\<open>encodeURIComponent\<close>: every byte of a character outside the unreserved set
  becomes \<open>%XX\<close> with upper-case digits.\<close>

definition encodeURIComponent :: "string \<Rightarrow> string" where
  "encodeURIComponent s =
     concat (map (\<lambda>c. if isUnreserved c then [c]
                       else [CHR ''%'', hexDigit (of_char c div 16), hexDigit (of_char c mod 16)]) s)"

text \<open>
  \<open>decodeURIComponent\<close> raises \<open>URIError\<close> (here \<open>None\<close>) on a \<open>%\<close> that is not followed
  by two hexadecimal digits, and on escapes that do not spell well-formed UTF-8: after
  an escaped lead byte the continuation bytes must be escaped too and lie in the range
  the lead byte allows.
\<close>

fun percentTokens :: "string \<Rightarrow> (bool \<times> char) list option" where
  "percentTokens [] = Some []"
| "percentTokens (c # cs) =
     (if c = CHR ''%'' then
        (case cs of
           h # l # rest \<Rightarrow>
             (case hexVal h of
                None \<Rightarrow> None
              | Some a \<Rightarrow>
                  (case hexVal l of
                     None \<Rightarrow> None
                   | Some b \<Rightarrow> map_option ((#) (True, char_of (16 * a + b))) (percentTokens rest)))
         | _ \<Rightarrow> None)
      else map_option ((#) (False, c)) (percentTokens cs))"

fun utf8Escapes :: "nat \<Rightarrow> nat \<Rightarrow> nat \<Rightarrow> (bool \<times> char) list \<Rightarrow> bool" where
  "utf8Escapes pending lo hi [] = (pending = 0)"
| "utf8Escapes pending lo hi ((esc, c) # ts) =
     (let b = of_char c :: nat in
      if pending = 0 then
        (if \<not> esc \<or> b < 0x80 then utf8Escapes 0 0 0 ts
         else if 0xC2 \<le> b \<and> b \<le> 0xDF then utf8Escapes 1 0x80 0xBF ts
         else if b = 0xE0 then utf8Escapes 2 0xA0 0xBF ts
         else if b = 0xED then utf8Escapes 2 0x80 0x9F ts
         else if 0xE1 \<le> b \<and> b \<le> 0xEF then utf8Escapes 2 0x80 0xBF ts
         else if b = 0xF0 then utf8Escapes 3 0x90 0xBF ts
         else if b = 0xF4 then utf8Escapes 3 0x80 0x8F ts
         else if 0xF1 \<le> b \<and> b \<le> 0xF3 then utf8Escapes 3 0x80 0xBF ts
         else False)
      else esc \<and> lo \<le> b \<and> b \<le> hi \<and> utf8Escapes (pending - 1) 0x80 0xBF ts)"

definition decodeURIComponent :: "string \<Rightarrow> string option" where
  "decodeURIComponent s =
     (case percentTokens s of
        None \<Rightarrow> None
      | Some ts \<Rightarrow> if utf8Escapes 0 0 0 ts then Some (map snd ts) else None)"

subsection \<open>Building and reading the token\<close>

text \<open>\<open>Buffer.from([t, n])\<close> stores each number modulo 256, which \<open>char_of\<close> does.\<close>

definition buildLangProto :: "string \<Rightarrow> string" where
  "buildLangProto langCode =
     (let langBytes = langCode;
          inner = [CHR 0x0a, CHR 0x00] @ [CHR 0x12, char_of (length langBytes)] @ langBytes
                    @ [CHR 0x1a, CHR 0x00]
      in encodeURIComponent (b64encode inner))"

definition buildTranscriptParams :: "string \<Rightarrow> string \<Rightarrow> string" where
  "buildTranscriptParams videoId langCode =
     (let videoIdBytes = videoId;
          langProtoUrlEncoded = buildLangProto langCode;
          langProtoBytes = langProtoUrlEncoded;
          panelId = ''engagement-panel-searchable-transcript-search-panel'';
          panelIdBytes = panelId;
          proto = [CHR 0x0a, char_of (length videoIdBytes)] @ videoIdBytes
                  @ [CHR 0x12, char_of (length langProtoBytes)] @ langProtoBytes
                  @ [CHR 0x18, CHR 0x01]
                  @ [CHR 0x2a, char_of (length panelIdBytes)] @ panelIdBytes
                  @ [CHR 0x30, CHR 0x01, CHR 0x38, CHR 0x01, CHR 0x40, CHR 0x01]
      in b64encode proto)"

text \<open>\<open>buf.indexOf(byte, offset)\<close>, \<open>buf[i]\<close> (\<open>undefined\<close> out of range, here \<open>None\<close>)
  and \<open>buf.subarray(a, b)\<close>, which clamps to the buffer.\<close>

definition indexOfFrom :: "string \<Rightarrow> char \<Rightarrow> nat \<Rightarrow> nat option" where
  "indexOfFrom buf b off =
     (if b \<in> set (drop off buf) then Some (off + length (takeWhile (\<lambda>c. c \<noteq> b) (drop off buf)))
      else None)"

definition byteAt :: "string \<Rightarrow> nat \<Rightarrow> nat option" where
  "byteAt buf i = (if i < length buf then Some (of_char (buf ! i)) else None)"

definition subarray :: "string \<Rightarrow> nat \<Rightarrow> nat \<Rightarrow> string" where
  "subarray buf a b = take (b - a) (drop a buf)"

text \<open>Every early \<open>return "en"\<close> and the \<open>catch\<close> branch of the source give \<open>''en''\<close>.\<close>

definition extractLangFromParams :: "string \<Rightarrow> string" where
  "extractLangFromParams params =
     (let decoded = b64decode params in
      case indexOfFrom decoded (CHR 0x12) 12 of
        None \<Rightarrow> ''en''
      | Some tagPos \<Rightarrow>
          (case byteAt decoded (tagPos + 1) of
             None \<Rightarrow> ''en''
           | Some fieldLen \<Rightarrow>
               if fieldLen = 0 then ''en''
               else (let innerUrlEncoded = subarray decoded (tagPos + 2) (tagPos + 2 + fieldLen) in
                     case decodeURIComponent innerUrlEncoded of
                       None \<Rightarrow> ''en''
                     | Some innerBase64 \<Rightarrow>
                         (let inner = b64decode innerBase64 in
                          case indexOfFrom inner (CHR 0x12) 0 of
                            None \<Rightarrow> ''en''
                          | Some innerTag \<Rightarrow>
                              (case byteAt inner (innerTag + 1) of
                                 None \<Rightarrow> ''en''
                               | Some innerLen \<Rightarrow>
                                   if innerLen = 0 then ''en''
                                   else subarray inner (innerTag + 2) (innerTag + 2 + innerLen))))))"

section \<open>Video identifier resolution\<close>

definition isIdChar :: "char \<Rightarrow> bool" where
  "isIdChar c = (isAlnum c \<or> c = CHR ''_'' \<or> c = CHR ''-'')"

text \<open>\<open>/^[a-zA-Z0-9_-]{11}$/.test(s)\<close>\<close>

definition isVideoIdPattern :: "string \<Rightarrow> bool" where
  "isVideoIdPattern s = (length s = 11 \<and> list_all isIdChar s)"

subsection \<open>The URL parser of the platform\<close>

text \<open>
  \<open>new URL(s)\<close>, without a base, as far as \<open>extractVideoId\<close> reads it: host name, path
  name and query of a URL with an authority. \<open>None\<close> stands for the \<open>TypeError\<close> of the
  constructor, and also for what lies outside this model: a URL without authority (its
  host name is empty, so the caller finds nothing in it either), a host in brackets, and
  a host with bytes outside ASCII (they need IDNA mapping). Numeric hosts are not
  normalised as IPv4 addresses, and the characters that the parser would percent-encode
  in the path are kept as they are; neither matters to the patterns applied below, which
  accept identifier characters only.
\<close>

record URL =
  hostname :: string
  pathname :: string
  search :: string

definition isAlpha :: "char \<Rightarrow> bool" where
  "isAlpha c = (let n = of_char c :: nat in (65 \<le> n \<and> n \<le> 90) \<or> (97 \<le> n \<and> n \<le> 122))"

definition isC0OrSpace :: "char \<Rightarrow> bool" where
  "isC0OrSpace c = ((of_char c :: nat) \<le> 0x20)"

definition isTabOrNewline :: "char \<Rightarrow> bool" where
  "isTabOrNewline c = (c = CHR 0x09 \<or> c = NL \<or> c = CHR 0x0D)"

definition stripC0 :: "string \<Rightarrow> string" where
  "stripC0 s = rev (dropWhile isC0OrSpace (rev (dropWhile isC0OrSpace s)))"

definition splitScheme :: "string \<Rightarrow> (string \<times> string) option" where
  "splitScheme s =
     (let sch = takeWhile (\<lambda>c. c \<noteq> CHR '':'') s in
      if length sch < length s \<and> sch \<noteq> [] \<and> isAlpha (hd sch)
         \<and> list_all (\<lambda>c. isAlnum c \<or> c = CHR ''+'' \<or> c = CHR ''-'' \<or> c = CHR ''.'') sch
      then Some (toLowerCase sch, drop (length sch + 1) s)
      else None)"

text \<open>Lenient percent-decoding, as used for hosts and form-encoded queries: a \<open>%\<close>
  that is not followed by two hexadecimal digits stays.\<close>

fun percentDecode :: "string \<Rightarrow> string" where
  "percentDecode (c # h # l # rest) =
     (if c = CHR ''%'' then
        (case hexVal h of
           None \<Rightarrow> c # percentDecode (h # l # rest)
         | Some a \<Rightarrow>
             (case hexVal l of
                None \<Rightarrow> c # percentDecode (h # l # rest)
              | Some b \<Rightarrow> char_of (16 * a + b) # percentDecode rest))
      else c # percentDecode (h # l # rest))"
| "percentDecode cs = cs"

definition isForbiddenHostChar :: "char \<Rightarrow> bool" where
  "isForbiddenHostChar c =
     (c = CHR 0x00 \<or> c = CHR 0x09 \<or> c = NL \<or> c = CHR 0x0D \<or> c = CHR '' ''
      \<or> c \<in> set (CHR 0x5C # ''#/:<>?@[]^|''))"

definition isForbiddenDomainChar :: "char \<Rightarrow> bool" where
  "isForbiddenDomainChar c =
     (isForbiddenHostChar c \<or> (of_char c :: nat) \<le> 0x1F \<or> c = CHR ''%'' \<or> c = CHR 0x7F)"

definition parseHost :: "bool \<Rightarrow> string \<Rightarrow> string option" where
  "parseHost special raw =
     (if CHR ''['' \<in> set raw then None
      else if special then
        (let h = toLowerCase (percentDecode raw) in
         if h = [] \<or> list_ex (\<lambda>c. (of_char c :: nat) \<ge> 0x80) h \<or> list_ex isForbiddenDomainChar h
         then None else Some h)
      else if list_ex isForbiddenHostChar raw then None else Some raw)"

text \<open>The authority: credentials before the last \<open>@\<close> are dropped, a port must be a
  decimal number up to 65535.\<close>

definition afterLast :: "char \<Rightarrow> string \<Rightarrow> string" where
  "afterLast c s = rev (takeWhile (\<lambda>d. d \<noteq> c) (rev s))"

definition parseAuthority :: "bool \<Rightarrow> string \<Rightarrow> string option" where
  "parseAuthority special auth =
     (let hostport = afterLast (CHR ''@'') auth;
          host = takeWhile (\<lambda>c. c \<noteq> CHR '':'') hostport;
          port = drop (length host + 1) hostport
      in if CHR ''@'' \<in> set auth \<and> host = [] then None
         else if \<not> list_all isDigit port \<or> digitsValue port > 65535 then None
         else parseHost special host)"

fun splitOn :: "(char \<Rightarrow> bool) \<Rightarrow> string \<Rightarrow> string list" where
  "splitOn P [] = [[]]"
| "splitOn P (c # cs) =
     (if P c then [] # splitOn P cs
      else (case splitOn P cs of x # xs \<Rightarrow> (c # x) # xs | [] \<Rightarrow> [[c]]))"

definition isSingleDot :: "string \<Rightarrow> bool" where
  "isSingleDot sg = (toLowerCase sg \<in> set [''.'', ''%2e''])"

definition isDoubleDot :: "string \<Rightarrow> bool" where
  "isDoubleDot sg = (toLowerCase sg \<in> set [''..'', ''.%2e'', ''%2e.'', ''%2e%2e''])"

text \<open>The path state: dot segments are resolved while the segments are collected.\<close>

fun pathSegments :: "string list \<Rightarrow> string list \<Rightarrow> string list" where
  "pathSegments path [] = path"
| "pathSegments path (sg # later) =
     (if isDoubleDot sg then pathSegments (butlast path @ (if later = [] then [[]] else [])) later
      else if isSingleDot sg then pathSegments (path @ (if later = [] then [[]] else [])) later
      else pathSegments (path @ [sg]) later)"

definition parsePath :: "bool \<Rightarrow> string \<Rightarrow> string" where
  "parsePath special raw =
     (let isSep = (\<lambda>c. c = CHR ''/'' \<or> (special \<and> c = CHR 0x5C)) in
      if raw = [] then (if special then ''/'' else [])
      else concat (map ((#) (CHR ''/'')) (pathSegments [] (splitOn isSep (drop 1 raw)))))"

definition parseURL :: "string \<Rightarrow> URL option" where
  "parseURL input =
     (let s = filter (\<lambda>c. \<not> isTabOrNewline c) (stripC0 input) in
      case splitScheme s of
        None \<Rightarrow> None
      | Some (scheme, afterScheme) \<Rightarrow>
          (let special = (scheme = ''http'' \<or> scheme = ''https'');
               isSlash = (\<lambda>c. c = CHR ''/'' \<or> c = CHR 0x5C);
               isEnd = (\<lambda>c. c = CHR ''/'' \<or> c = CHR ''?'' \<or> c = CHR ''#'' \<or> (special \<and> c = CHR 0x5C))
           in if \<not> special \<and> take 2 afterScheme \<noteq> ''//'' then None
              else (let r = (if special then dropWhile isSlash afterScheme else drop 2 afterScheme);
                        auth = takeWhile (\<lambda>c. \<not> isEnd c) r;
                        afterAuth = dropWhile (\<lambda>c. \<not> isEnd c) r;
                        rawPath = takeWhile (\<lambda>c. c \<noteq> CHR ''?'' \<and> c \<noteq> CHR ''#'') afterAuth;
                        afterPath = dropWhile (\<lambda>c. c \<noteq> CHR ''?'' \<and> c \<noteq> CHR ''#'') afterAuth;
                        query = (if take 1 afterPath = ''?''
                                 then takeWhile (\<lambda>c. c \<noteq> CHR ''#'') (drop 1 afterPath) else [])
                    in case parseAuthority special auth of
                         None \<Rightarrow> None
                       | Some host \<Rightarrow>
                           Some \<lparr>hostname = host, pathname = parsePath special rawPath, search = query\<rparr>)))"

text \<open>\<open>url.searchParams.get(key)\<close>: the query is split at \<open>&\<close>, each non-empty part at
  its first \<open>=\<close>; \<open>+\<close> is a space and percent escapes are decoded.\<close>

definition formDecode :: "string \<Rightarrow> string" where
  "formDecode s = percentDecode (map (\<lambda>c. if c = CHR ''+'' then CHR '' '' else c) s)"

definition searchParamsGet :: "string \<Rightarrow> string \<Rightarrow> string option" where
  "searchParamsGet query key =
     (let parts = filter (\<lambda>p. p \<noteq> []) (splitOn (\<lambda>c. c = CHR ''&'') query);
          pairs = map (\<lambda>p. (formDecode (takeWhile (\<lambda>c. c \<noteq> CHR ''='') p),
                            formDecode (drop 1 (dropWhile (\<lambda>c. c \<noteq> CHR ''='') p)))) parts
      in map_option snd (find (\<lambda>kv. fst kv = key) pairs))"

subsection \<open>extractVideoId\<close>

text \<open>A pattern \<open>prefix([a-zA-Z0-9_-]{11})\<close> tried at the start of \<open>s\<close>.\<close>

definition matchIdAfter :: "string \<Rightarrow> string \<Rightarrow> string option" where
  "matchIdAfter prefix s =
     (let cand = take 11 (drop (length prefix) s)
      in if startsWith s prefix \<and> isVideoIdPattern cand then Some cand else None)"

definition firstSome :: "'a option list \<Rightarrow> 'a option" where
  "firstSome xs = (case filter (\<lambda>x. x \<noteq> None) xs of [] \<Rightarrow> None | x # _ \<Rightarrow> x)"

text \<open>\<open>pathname.match(/^\/(shorts|embed|v)\/([a-zA-Z0-9_-]{11})/)\<close>, group 2.\<close>

definition pathMatch :: "string \<Rightarrow> string option" where
  "pathMatch p = firstSome [matchIdAfter ''/shorts/'' p, matchIdAfter ''/embed/'' p, matchIdAfter ''/v/'' p]"

text \<open>\<open>trimmed.match(/(?:v=|\/(?:embed|v|shorts)\/)([a-zA-Z0-9_-]{11})/)\<close>, group 1: the
  leftmost position at which one of the alternatives matches.\<close>

definition lastResortAt :: "string \<Rightarrow> string option" where
  "lastResortAt s =
     firstSome [matchIdAfter ''v='' s, matchIdAfter ''/embed/'' s, matchIdAfter ''/v/'' s,
                matchIdAfter ''/shorts/'' s]"

fun lastResort :: "string \<Rightarrow> string option" where
  "lastResort [] = None"
| "lastResort (c # cs) =
     (case lastResortAt (c # cs) of Some v \<Rightarrow> Some v | None \<Rightarrow> lastResort cs)"

text \<open>\<open>hostname.replace(/^www\./, "")\<close>\<close>

definition stripWww :: "string \<Rightarrow> string" where
  "stripWww h = (if startsWith h ''www.'' then drop 4 h else h)"

text \<open>The \<open>try\<close> block of \<open>extractVideoId\<close>; \<open>None\<close> when it returns nothing or the URL
  constructor throws.\<close>

definition idFromUrl :: "string \<Rightarrow> string option" where
  "idFromUrl trimmed =
     (case parseURL (if startsWith trimmed ''http'' then trimmed else ''https://'' @ trimmed) of
        None \<Rightarrow> None
      | Some url \<Rightarrow>
          (let hostname = stripWww (hostname url);
               short = (if hostname = ''youtu.be''
                        then (let ident = takeWhile (\<lambda>c. c \<noteq> CHR ''/'') (drop 1 (pathname url))
                              in if ident \<noteq> [] \<and> isVideoIdPattern ident then Some ident else None)
                        else None)
           in case short of
                Some ident \<Rightarrow> Some ident
              | None \<Rightarrow>
                  if hostname = ''youtube.com'' \<or> hostname = ''m.youtube.com'' then
                    (case searchParamsGet (search url) ''v'' of
                       Some v \<Rightarrow> if v \<noteq> [] \<and> isVideoIdPattern v then Some v else pathMatch (pathname url)
                     | None \<Rightarrow> pathMatch (pathname url))
                  else None))"

definition extractVideoId :: "string \<Rightarrow> string option" where
  "extractVideoId input =
     (let trimmed = trim input in
      if isVideoIdPattern trimmed then Some trimmed
      else (case idFromUrl trimmed of
              Some ident \<Rightarrow> Some ident
            | None \<Rightarrow> lastResort trimmed))"

section \<open>Page state, network and errors\<close>

text \<open>
  The classes of \<open>errors.ts\<close> that this pipeline throws, each with the arguments of its
  constructor (the optional \<open>cause\<close> of \<open>TranscriptionError\<close> is left out).
\<close>

datatype error =
    VideoNotFoundError string
  | CaptionsDisabledError string
  | LanguageNotAvailableError string "string list"
  | TranscriptionError string

text \<open>
  The page state. \<open>captionTracks\<close> stands for
  \<open>captions?.playerCaptionsTracklistRenderer?.captionTracks\<close>, \<open>simpleText\<close> for
  \<open>name?.simpleText\<close>, and \<open>panelIdentifier\<close> for
  \<open>engagementPanelSectionListRenderer?.panelIdentifier\<close>; \<open>panelJson\<close> is the
  serialisation \<open>JSON.stringify(panel)\<close> of a panel, in which the token is searched.
\<close>

record CaptionTrack =
  baseUrl :: string
  languageCode :: string
  kind :: "string option"
  simpleText :: "string option"

record PlayabilityStatus =
  status :: "string option"
  reason :: "string option"

record PlayerResponse =
  captionTracks :: "CaptionTrack list option"
  playabilityStatus :: "PlayabilityStatus option"

record EngagementPanel =
  panelIdentifier :: "string option"
  panelJson :: string

record InitialData =
  engagementPanels :: "EngagementPanel list option"

record PageData =
  playerResponse :: "PlayerResponse option"
  initialData :: "InitialData option"
  visitorData :: "string option"
  clientVersion :: string
  cookies :: string

text \<open>
  The two round trips. What the network answers is an input of the model: the watch page
  of a video identifier, already scraped into its page state, and the answer of the
  transcript endpoint to a token and a visitor token. An error object of the endpoint
  carries its optional \<open>message\<close> and \<open>status\<close>, as \<open>String(...)\<close> prints them.
\<close>

datatype page_reply =
    PageNetworkFailure
  | PageHttpStatus nat
  | Page PageData

datatype api_reply =
    ApiNetworkFailure
  | ApiHttpStatus nat string
  | ApiUnparseable
  | ApiErrorObject "string option" "string option"
  | ApiData TranscriptApiResponse

record network =
  watchPage :: "string \<Rightarrow> page_reply"
  getTranscript :: "string \<Rightarrow> string option \<Rightarrow> api_reply"

definition fetchPageData :: "network \<Rightarrow> string \<Rightarrow> error + PageData" where
  "fetchPageData net videoId =
     (case watchPage net videoId of
        PageNetworkFailure \<Rightarrow>
          Inl (TranscriptionError (''Network error fetching YouTube page for video '' @ videoId))
      | PageHttpStatus st \<Rightarrow>
          Inl (TranscriptionError (''HTTP '' @ showNat st @ '' fetching YouTube page for video '' @ videoId))
      | Page pageData \<Rightarrow> Inr pageData)"

abbreviation DQ :: char where
  "DQ \<equiv> CHR 0x22"

text \<open>\<open>panelStr.match(/"getTranscriptEndpoint":\{"params":"([^"]+)"/)\<close>, group 1: after
  the key, the longest run of characters other than the quote, which must be non-empty
  and closed by a quote.\<close>

definition paramsAt :: "string \<Rightarrow> string option" where
  "paramsAt s =
     (let key = [DQ] @ ''getTranscriptEndpoint'' @ [DQ] @ '':{'' @ [DQ] @ ''params'' @ [DQ] @ '':'' @ [DQ];
          rest = drop (length key) s;
          v = takeWhile (\<lambda>c. c \<noteq> DQ) rest
      in if startsWith s key \<and> v \<noteq> [] \<and> length v < length rest then Some v else None)"

fun findParams :: "string \<Rightarrow> string option" where
  "findParams [] = None"
| "findParams (c # cs) = (case paramsAt (c # cs) of Some v \<Rightarrow> Some v | None \<Rightarrow> findParams cs)"

definition extractTranscriptParams :: "InitialData \<Rightarrow> string option" where
  "extractTranscriptParams idata =
     (let panels = orElse (engagementPanels idata) [] in
      case find (\<lambda>p. panelIdentifier p = Some ''engagement-panel-searchable-transcript'') panels of
        None \<Rightarrow> None
      | Some transcriptPanel \<Rightarrow> findParams (panelJson transcriptPanel))"

definition fetchTranscriptViaApi :: "network \<Rightarrow> string \<Rightarrow> string option \<Rightarrow> error + TranscriptApiResponse" where
  "fetchTranscriptViaApi net params visitor =
     (case getTranscript net params visitor of
        ApiNetworkFailure \<Rightarrow> Inl (TranscriptionError ''Network error calling YouTube transcript API'')
      | ApiHttpStatus st body \<Rightarrow>
          Inl (TranscriptionError (''YouTube transcript API returned HTTP '' @ showNat st @ '': '' @ take 200 body))
      | ApiUnparseable \<Rightarrow> Inl (TranscriptionError ''Failed to parse YouTube transcript API response'')
      | ApiErrorObject msg st \<Rightarrow>
          (let message = orElse msg ''Unknown API error'';
               status = orElse st []
           in if status = ''FAILED_PRECONDITION''
              then Inl (CaptionsDisabledError
                     (''(API precondition failed '' @ [CHR 0xE2, CHR 0x80, CHR 0x94] @ '' captions may be unavailable)''))
              else Inl (TranscriptionError (''YouTube API error: '' @ message)))
      | ApiData d \<Rightarrow> Inr d)"

section \<open>Language catalogue and transcription\<close>

text \<open>\<open>pageData.playerResponse?.playabilityStatus?.status\<close> and
  \<open>pageData.playerResponse?.captions?.playerCaptionsTracklistRenderer?.captionTracks ?? []\<close>,
  which the source writes out at each use.\<close>

definition playabilityOf :: "PageData \<Rightarrow> string option" where
  "playabilityOf pageData =
     Option.bind (playerResponse pageData) (\<lambda>p. Option.bind (playabilityStatus p) status)"

definition tracksOf :: "PageData \<Rightarrow> CaptionTrack list" where
  "tracksOf pageData = orElse (Option.bind (playerResponse pageData) captionTracks) []"

text \<open>\<open>status && status !== "OK" && status !== "LIVE_STREAM_OFFLINE"\<close>; an absent or
  empty status is falsy.\<close>

definition unplayable :: "string option \<Rightarrow> bool" where
  "unplayable st =
     (case st of
        None \<Rightarrow> False
      | Some s \<Rightarrow> s \<noteq> [] \<and> s \<noteq> ''OK'' \<and> s \<noteq> ''LIVE_STREAM_OFFLINE'')"

text \<open>The objects that the catalogue returns: \<open>code\<close>, \<open>name\<close> and \<open>isAutoGenerated\<close>
  (here \<open>autoGenerated\<close>).\<close>

record LanguageInfo =
  code :: string
  name :: string
  autoGenerated :: bool

definition listAvailableLanguages :: "network \<Rightarrow> string \<Rightarrow> error + LanguageInfo list" where
  "listAvailableLanguages net videoId =
     (case fetchPageData net videoId of
        Inl e \<Rightarrow> Inl e
      | Inr pageData \<Rightarrow>
          if unplayable (playabilityOf pageData) then Inl (VideoNotFoundError videoId)
          else Inr (map (\<lambda>t. \<lparr>code = languageCode t,
                                name = orElse (simpleText t) (languageCode t),
                                autoGenerated = (kind t = Some ''asr'')\<rparr>)
                        (tracksOf pageData)))"

datatype TranscriptFormat = FormatText | FormatSrt | FormatJson

text \<open>The options \<open>language\<close> and \<open>format\<close>, each of which may be left out.\<close>

record TranscribeOptions =
  opt_language :: "string option"
  opt_format :: "TranscriptFormat option"

datatype transcript = TranscriptString string | TranscriptSegments "TranscriptSegment list"

record TranscribeResult =
  videoId :: string
  language :: string
  isAutoGenerated :: bool
  transcript :: transcript

text \<open>The choice of the token: the one of the page when it decodes to the requested
  language, else a fresh one.\<close>

definition chooseParams :: "PageData \<Rightarrow> string \<Rightarrow> string \<Rightarrow> string" where
  "chooseParams pageData vid lang =
     (let reused =
            (case initialData pageData of
               None \<Rightarrow> None
             | Some d \<Rightarrow>
                 (case extractTranscriptParams d of
                    None \<Rightarrow> None
                  | Some existingParams \<Rightarrow>
                      if existingParams \<noteq> []
                         \<and> toLowerCase (extractLangFromParams existingParams) = toLowerCase lang
                      then Some existingParams else None))
      in case reused of
           Some p \<Rightarrow> if p \<noteq> [] then p else buildTranscriptParams vid lang
         | None \<Rightarrow> buildTranscriptParams vid lang)"

text \<open>The predicate of \<open>tracks.find(...)\<close>: the language code of the track starts with
  the requested language, both in lower case.\<close>

definition matchesLanguage :: "string \<Rightarrow> CaptionTrack \<Rightarrow> bool" where
  "matchesLanguage lang t = startsWith (toLowerCase (languageCode t)) (toLowerCase lang)"

definition transcribeVideo :: "network \<Rightarrow> string \<Rightarrow> TranscribeOptions \<Rightarrow> error + TranscribeResult" where
  "transcribeVideo net input options =
     (let language = orElse (opt_language options) ''en'';
          format = orElse (opt_format options) FormatText
      in case extractVideoId input of
           None \<Rightarrow>
             Inl (TranscriptionError
                   (''Could not extract a valid YouTube video ID from: '' @ [DQ] @ input @ [DQ]))
         | Some vid \<Rightarrow>
             (case fetchPageData net vid of
                Inl e \<Rightarrow> Inl e
              | Inr pageData \<Rightarrow>
                  if unplayable (playabilityOf pageData) then
                    (let reason = orElse (Option.bind (playerResponse pageData)
                                            (\<lambda>p. Option.bind (playabilityStatus p) reason))
                                         ''unknown reason''
                     in Inl (VideoNotFoundError (vid @ '' ('' @ reason @ '')'')))
                  else
                    (let transcriptParams = chooseParams pageData vid language in
                     case fetchTranscriptViaApi net transcriptParams (visitorData pageData) of
                       Inl err \<Rightarrow>
                         (case err of
                            CaptionsDisabledError _ \<Rightarrow>
                              (let tracks = tracksOf pageData in
                               if tracks \<noteq> []
                               then Inl (LanguageNotAvailableError language (map languageCode tracks))
                               else Inl err)
                          | _ \<Rightarrow> Inl err)
                     | Inr apiResponse \<Rightarrow>
                         (let segments = parseTranscriptSegments apiResponse in
                          if segments = [] then
                            (let tracks = tracksOf pageData in
                             if tracks \<noteq> []
                             then Inl (LanguageNotAvailableError language (map languageCode tracks))
                             else Inl (CaptionsDisabledError vid))
                          else
                            (let tracks = tracksOf pageData;
                                 matchingTrack = find (matchesLanguage language) tracks;
                                 isAuto = (Option.bind matchingTrack kind = Some ''asr'');
                                 t = (case format of
                                        FormatText \<Rightarrow> TranscriptString (formatAsText segments)
                                      | FormatSrt \<Rightarrow> TranscriptString (formatAsSrt segments)
                                      | FormatJson \<Rightarrow> TranscriptSegments segments)
                             in Inr \<lparr>videoId = vid, language = language,
                                     isAutoGenerated = isAuto, transcript = t\<rparr>)))))"

text \<open>
  Modelled from the spec: the error taxonomy of its section 7, which is not declared in
  the sources. Each class of \<open>errors.ts\<close> is the kind that the taxonomy describes; no
  class stands for the identifier-invalid kind.
\<close>

datatype error_kind =
    IdentifierInvalid
  | VideoUnavailable
  | CaptionsDisabled
  | LanguageUnavailable
  | TranscriptionFailure

fun errorKind :: "error \<Rightarrow> error_kind" where
  "errorKind (VideoNotFoundError _) = VideoUnavailable"
| "errorKind (CaptionsDisabledError _) = CaptionsDisabled"
| "errorKind (LanguageNotAvailableError _ _) = LanguageUnavailable"
| "errorKind (TranscriptionError _) = TranscriptionFailure"

text \<open>The page state with its playability status set to \<open>OK\<close> and all else kept.\<close>

definition withStatusOK :: "PageData \<Rightarrow> PageData" where
  "withStatusOK pd =
     pd\<lparr>playerResponse :=
          Some (case playerResponse pd of
                  None \<Rightarrow> \<lparr>captionTracks = None,
                            playabilityStatus = Some \<lparr>status = Some ''OK'', reason = None\<rparr>\<rparr>
                | Some p \<Rightarrow>
                    p\<lparr>playabilityStatus :=
                        Some \<lparr>status = Some ''OK'',
                              reason = Option.bind (playabilityStatus p) reason\<rparr>\<rparr>)\<rparr>"

section \<open>Sample inputs\<close>

text \<open>Concrete page states and network answers at which the theorems are instantiated.\<close>

definition sampleTrack :: "string \<Rightarrow> string option \<Rightarrow> CaptionTrack" where
  "sampleTrack c k = \<lparr>baseUrl = [], languageCode = c, kind = k, simpleText = None\<rparr>"

definition samplePage :: "PlayerResponse option \<Rightarrow> PageData" where
  "samplePage p =
     \<lparr>playerResponse = p, initialData = None, visitorData = None,
      clientVersion = ''2.20241121.01.00'', cookies = ''CONSENT=YES+cb.20210328-17-p0.en+FX+000''\<rparr>"

definition playablePage :: "CaptionTrack list \<Rightarrow> PageData" where
  "playablePage ts =
     samplePage (Some \<lparr>captionTracks = Some ts,
                       playabilityStatus = Some \<lparr>status = Some ''OK'', reason = None\<rparr>\<rparr>)"

definition sampleNetwork :: "PageData \<Rightarrow> api_reply \<Rightarrow> network" where
  "sampleNetwork pd reply = \<lparr>watchPage = (\<lambda>_. Page pd), getTranscript = (\<lambda>_ _. reply)\<rparr>"

definition sampleResponse :: TranscriptApiResponse where
  "sampleResponse =
     \<lparr>actions = Some [\<lparr>initialSegments = Some
        [\<lparr>transcriptSegmentRenderer = Some
           \<lparr>r_startMs = Some ''1000'', r_endMs = Some ''3000'', content = Some ''Hi'', runs = None\<rparr>\<rparr>]\<rparr>]\<rparr>"

definition sampleSegments :: "TranscriptSegment list" where
  "sampleSegments = [\<lparr>segmentText = ''Hi'', startMs = Whole 1000, durationMs = Whole 2000\<rparr>]"

definition preconditionFailed :: api_reply where
  "preconditionFailed = ApiErrorObject (Some ''Precondition check failed.'') (Some ''FAILED_PRECONDITION'')"

text \<open>A response with four actions: one without segment list, one whose entries all
  have an empty derived text, one with six entries of which three are kept, and a last
  one that is not reached.\<close>

definition sampleEntry :: "string option \<Rightarrow> string option \<Rightarrow> string option
    \<Rightarrow> string option list option \<Rightarrow> TranscriptSegmentItem" where
  "sampleEntry s e c rs =
     \<lparr>transcriptSegmentRenderer = Some \<lparr>r_startMs = s, r_endMs = e, content = c, runs = rs\<rparr>\<rparr>"

definition mixedResponse :: TranscriptApiResponse where
  "mixedResponse =
     \<lparr>actions = Some
        [\<lparr>initialSegments = None\<rparr>,
         \<lparr>initialSegments = Some
            [sampleEntry (Some ''5'') (Some ''9'') (Some [NL, CHR '' '', NL]) None,
             \<lparr>transcriptSegmentRenderer = None\<rparr>]\<rparr>,
         \<lparr>initialSegments = Some
            [sampleEntry (Some ''0'') (Some ''1500'') (Some ('' Hello'' @ [NL] @ ''world'' @ [NL])) None,
             sampleEntry (Some ''10'') (Some ''20'')
               (Some [CHR 0xC2, CHR 0xA0, CHR 0xEF, CHR 0xBB, CHR 0xBF, CHR 0xE2, CHR 0x80, CHR 0xA8]) None,
             \<lparr>transcriptSegmentRenderer = None\<rparr>,
             sampleEntry (Some ''1500'') (Some ''4000'') None
               (Some [Some ''a'', None, Some (''b'' @ [NL] @ ''c '')]),
             sampleEntry (Some ''30'') (Some ''40'') (Some []) (Some [Some ''z'']),
             sampleEntry None (Some ''7'')
               (Some ([CHR 0xC2, CHR 0xA0] @ ''x'' @ [CHR 0xE3, CHR 0x80, CHR 0x80])) None]\<rparr>,
         \<lparr>initialSegments = Some [sampleEntry (Some ''0'') (Some ''1'') (Some ''later'') None]\<rparr>]\<rparr>"

definition mixedSegments :: "TranscriptSegment list" where
  "mixedSegments =
     [\<lparr>segmentText = ''Hello world'', startMs = Whole 0, durationMs = Whole 1500\<rparr>,
      \<lparr>segmentText = ''ab c'', startMs = Whole 1500, durationMs = Whole 2500\<rparr>,
      \<lparr>segmentText = ''x'', startMs = Whole 0, durationMs = Whole 7\<rparr>]"

definition jsonOptions :: "string option \<Rightarrow> TranscribeOptions" where
  "jsonOptions l = \<lparr>opt_language = l, opt_format = Some FormatJson\<rparr>"

section \<open>Verified properties\<close>

subsection \<open>Rendering\<close>

lemma mapIndexed_nth:
  "mapIndexed f k xs = map (\<lambda>i. f (xs ! i) (k + i)) [0..<length xs]"
proof (induction xs arbitrary: k)
  case Nil
  show ?case by simp
next
  case (Cons x xs)
  have "[0..<length (x # xs)] = 0 # map Suc [0..<length xs]"
    by (simp add: upt_conv_Cons map_Suc_upt del: upt_Suc)
  then show ?case
    by (simp add: Cons.IH comp_def del: upt_Suc)
qed

lemma smod_nonneg: "0 \<le> (a::int) \<Longrightarrow> 0 < b \<Longrightarrow> a smod b = a mod b"
  by (simp add: signed_modulo_int_def sgn_if)

lemma ts_nonneg: "0 \<le> ms \<Longrightarrow> msToSrtTimestamp (Whole ms) =
     pad (ms div 1000 div 3600) 2 @ '':'' @ pad (ms div 1000 mod 3600 div 60) 2 @ '':'' @
     pad (ms div 1000 mod 60) 2 @ '','' @ pad (ms mod 1000) 3"
  by (simp add: Let_def smod_nonneg pos_imp_zdiv_nonneg_iff)

lemma showNat_lt10: "n < 10 \<Longrightarrow> showNat n = [digitChar n]"
  by (simp add: showNat.simps [of n])

lemma showNat_ge10: "10 \<le> n \<Longrightarrow> showNat n = showNat (n div 10) @ [digitChar (n mod 10)]"
  by (simp add: showNat.simps [of n])

lemma digitChar_simps:
  "digitChar 0 = CHR ''0''" "digitChar 1 = CHR ''1''" "digitChar 2 = CHR ''2''"
  "digitChar 3 = CHR ''3''" "digitChar 4 = CHR ''4''" "digitChar 5 = CHR ''5''"
  "digitChar 6 = CHR ''6''" "digitChar 7 = CHR ''7''" "digitChar 8 = CHR ''8''"
  "digitChar 9 = CHR ''9''" "digitChar (Suc 0) = CHR ''1''"
  by (simp_all add: digitChar_def char_of_eq_iff)

lemmas digitChar_0 = digitChar_simps(1)

lemma showNat_2: "n < 100 \<Longrightarrow> padStart (showNat n) 2 = [digitChar (n div 10), digitChar (n mod 10)]"
proof (cases "n < 10")
  case True
  then show ?thesis by (simp add: showNat_lt10 padStart_def digitChar_0)
next
  case False
  assume "n < 100"
  with False have "n div 10 < 10" "10 \<le> n" by auto
  then show ?thesis by (simp add: showNat_ge10 showNat_lt10 padStart_def)
qed

lemma showNat_3: "n < 1000 \<Longrightarrow>
   padStart (showNat n) 3 = [digitChar (n div 100), digitChar (n div 10 mod 10), digitChar (n mod 10)]"
proof (cases "n < 10")
  case True
  then show ?thesis by (simp add: showNat_lt10 padStart_def digitChar_0 numeral_3_eq_3)
next
  case False
  assume n: "n < 1000"
  show ?thesis
  proof (cases "n < 100")
    case True
    with False have "n div 10 < 10" "10 \<le> n" by auto
    with True show ?thesis by (simp add: showNat_ge10 showNat_lt10 padStart_def digitChar_0)
  next
    case False
    with n have "10 \<le> n" "10 \<le> n div 10" "n div 10 div 10 < 10" by auto
    moreover have "n div 10 div 10 = n div 100" by (simp add: div_mult2_eq [symmetric])
    ultimately show ?thesis by (simp add: showNat_ge10 showNat_lt10 padStart_def)
  qed
qed

lemma pad2_digits: "0 \<le> n \<Longrightarrow> n < 100 \<Longrightarrow> pad n 2 = [digitChar (nat n div 10), digitChar (nat n mod 10)]"
  by (simp add: pad_def showInt_def showNat_2)

lemma pad3_digits: "0 \<le> n \<Longrightarrow> n < 1000 \<Longrightarrow>
   pad n 3 = [digitChar (nat n div 100), digitChar (nat n div 10 mod 10), digitChar (nat n mod 10)]"
  by (simp add: pad_def showInt_def showNat_3)

text \<open>
  Claim C7. SRT formatting renders the segments as cues joined by a blank line; the cue
  of the segment at position \<open>i\<close> carries the index \<open>i + 1\<close>, the timestamp of its start
  and of start + duration, and its text. The timestamp fields are hours =
  floor(totalSeconds / 3600), minutes = floor((totalSeconds rem 3600) / 60), seconds =
  totalSeconds rem 60 and milliseconds = ms rem 1000, where totalSeconds = floor(ms / 1000)
  and rem is the remainder operator of the language; for a non-negative number of
  milliseconds rem is mod. The fields are padded with zeros to two digits (three for the
  milliseconds). All this is stated for numbers of milliseconds strictly between
  \<open>- 2^53\<close> and \<open>2^53\<close> (start, duration and their sum), where the arithmetic of the
  platform is exact, and for lists a platform array can hold. The single segment
  \<open>{text: "Hi", startMs: 1000, durationMs: 2000}\<close> renders as
  \<open>1\n00:00:01,000 --> 00:00:03,000\nHi\<close>.
\<close>

theorem formatAsSrt_cues:
  fixes ms n :: int
  shows "(- (2 ^ 53) < ms \<and> ms < 2 ^ 53 \<longrightarrow> msToSrtTimestamp (Whole ms) =
            pad (ms div 1000 div 3600) 2 @ '':'' @ pad ((ms div 1000) smod 3600 div 60) 2 @ '':'' @
            pad ((ms div 1000) smod 60) 2 @ '','' @ pad (ms smod 1000) 3)
       \<and> (0 \<le> ms \<and> ms < 2 ^ 53 \<longrightarrow> msToSrtTimestamp (Whole ms) =
            pad (ms div 1000 div 3600) 2 @ '':'' @ pad (ms div 1000 mod 3600 div 60) 2 @ '':'' @
            pad (ms div 1000 mod 60) 2 @ '','' @ pad (ms mod 1000) 3)
       \<and> (0 \<le> n \<and> n < 100 \<longrightarrow> pad n 2 = [digitChar (nat n div 10), digitChar (nat n mod 10)])
       \<and> (0 \<le> n \<and> n < 1000 \<longrightarrow>
            pad n 3 = [digitChar (nat n div 100), digitChar (nat n div 10 mod 10), digitChar (nat n mod 10)])
       \<and> (length segs < 2 ^ 32
            \<and> (\<forall>seg \<in> set segs. exactNumber (startMs seg) \<and> exactNumber (durationMs seg)
                   \<and> exactNumber (number_plus (startMs seg) (durationMs seg)))
          \<longrightarrow> formatAsSrt segs = join [NL, NL]
            (map (\<lambda>i. showNat (i + 1) @ [NL] @ msToSrtTimestamp (startMs (segs ! i)) @ '' --> '' @
                      msToSrtTimestamp (number_plus (startMs (segs ! i)) (durationMs (segs ! i))) @
                      [NL] @ segmentText (segs ! i))
                 [0..<length segs]))
       \<and> formatAsSrt [\<lparr>segmentText = ''Hi'', startMs = Whole 1000, durationMs = Whole 2000\<rparr>]
            = ''1'' @ [NL] @ ''00:00:01,000 --> 00:00:03,000'' @ [NL] @ ''Hi''"
proof -
  have cues: "formatAsSrt segs = join [NL, NL]
            (map (\<lambda>i. showNat (i + 1) @ [NL] @ msToSrtTimestamp (startMs (segs ! i)) @ '' --> '' @
                      msToSrtTimestamp (number_plus (startMs (segs ! i)) (durationMs (segs ! i))) @
                      [NL] @ segmentText (segs ! i))
                 [0..<length segs])"
    by (simp add: formatAsSrt_def mapIndexed_nth srtCue_def Let_def del: msToSrtTimestamp.simps)
  have single: "formatAsSrt [\<lparr>segmentText = ''Hi'', startMs = Whole 1000, durationMs = Whole 2000\<rparr>]
            = ''1'' @ [NL] @ ''00:00:01,000 --> 00:00:03,000'' @ [NL] @ ''Hi''"
    by (simp add: formatAsSrt_def srtCue_def ts_nonneg pad2_digits pad3_digits showNat_lt10
        digitChar_simps del: msToSrtTimestamp.simps)
  have fields: "msToSrtTimestamp (Whole ms) =
            pad (ms div 1000 div 3600) 2 @ '':'' @ pad ((ms div 1000) smod 3600 div 60) 2 @ '':'' @
            pad ((ms div 1000) smod 60) 2 @ '','' @ pad (ms smod 1000) 3"
    by (simp add: Let_def)
  show ?thesis
    using fields cues single ts_nonneg [of ms] pad2_digits [of n] pad3_digits [of n]
    by (intro conjI impI) simp_all
qed

theorem formatAsSrt_cues_witness:
  "- (2 ^ 53) < (3661001::int) \<and> (0::int) \<le> 3661001 \<and> (3661001::int) < 2 ^ 53
   \<and> msToSrtTimestamp (Whole 3661001) = ''01:01:01,001''
   \<and> (0::int) \<le> 7 \<and> (7::int) < 100 \<and> pad 7 2 = ''07'' \<and> pad 7 3 = ''007''
   \<and> length sampleSegments < 2 ^ 32
   \<and> exactNumber (Whole 1000) \<and> exactNumber (Whole 2000)
   \<and> exactNumber (number_plus (Whole 1000) (Whole 2000))
   \<and> formatAsSrt sampleSegments = ''1'' @ [NL] @ ''00:00:01,000 --> 00:00:03,000'' @ [NL] @ ''Hi''"
proof -
  have b: "- (2 ^ 53) < (3661001::int)" "(0::int) \<le> 3661001" "(3661001::int) < 2 ^ 53" by simp_all
  have ex: "length sampleSegments < 2 ^ 32
     \<and> (\<forall>seg \<in> set sampleSegments. exactNumber (startMs seg) \<and> exactNumber (durationMs seg)
          \<and> exactNumber (number_plus (startMs seg) (durationMs seg)))"
    by (simp add: sampleSegments_def exactNumber_def)
  note t = formatAsSrt_cues [of 3661001 7 sampleSegments]
  have ts: "msToSrtTimestamp (Whole 3661001) = ''01:01:01,001''"
    using t b pad2_digits [of 1] pad3_digits [of 1]
    by (simp add: digitChar_simps del: msToSrtTimestamp.simps)
  have pads: "pad 7 2 = ''07''" "pad 7 3 = ''007''"
    using t by (simp_all add: digitChar_simps del: msToSrtTimestamp.simps)
  have srt: "formatAsSrt sampleSegments = ''1'' @ [NL] @ ''00:00:01,000 --> 00:00:03,000'' @ [NL] @ ''Hi''"
    using t by (simp add: sampleSegments_def)
  have en: "exactNumber (Whole 1000)" "exactNumber (Whole 2000)"
      "exactNumber (number_plus (Whole 1000) (Whole 2000))"
    by (simp_all add: exactNumber_def)
  from b ex ts pads srt en show ?thesis by simp
qed

subsection \<open>Identifier resolution: helper facts\<close>

lemma eq_char_of_iff: "c = char_of n \<longleftrightarrow> take_bit 8 n = (of_char c :: nat)"
  using char_of_eq_iff [of n c] by auto

lemma trimStart_id: "wsPrefixLen s = 0 \<Longrightarrow> trimStart s = s"
  by (simp add: trimStart.simps [of s])

lemma trimEnd_id: "wsSuffixLen s = 0 \<Longrightarrow> trimEnd s = s"
  by (simp add: trimEnd.simps [of s])

lemma ws_lead_bytes:
  "isWhiteSpace a \<Longrightarrow> (of_char a :: nat) \<le> 0x20"
  "isWhiteSpace2 a b \<Longrightarrow> 0x80 \<le> (of_char a :: nat)"
  "isWhiteSpace3 a b c \<Longrightarrow> 0x80 \<le> (of_char a :: nat)"
  by (auto simp: isWhiteSpace_def isWhiteSpace2_def isWhiteSpace3_def)

lemma ws_last_bytes:
  "isWhiteSpace2 a b \<Longrightarrow> 0x80 \<le> (of_char b :: nat)"
  "isWhiteSpace3 a b c \<Longrightarrow> 0x80 \<le> (of_char c :: nat)"
  by (auto simp: isWhiteSpace2_def isWhiteSpace3_def)

lemma wsPrefixLen_printable:
  assumes "s \<noteq> []" "0x21 \<le> (of_char (hd s) :: nat)" "(of_char (hd s) :: nat) < 0x80"
  shows "wsPrefixLen s = 0"
proof -
  obtain a r where s: "s = a # r" using assms(1) by (cases s) auto
  have a: "\<not> isWhiteSpace a" "\<And>b. \<not> isWhiteSpace2 a b" "\<And>b c. \<not> isWhiteSpace3 a b c"
    using assms(2) assms(3) ws_lead_bytes [of a] unfolding s by fastforce+
  show ?thesis
    unfolding s wsPrefixLen_def by (simp add: a split: list.splits)
qed

lemma wsSuffixLen_printable:
  assumes "s \<noteq> []" "0x21 \<le> (of_char (last s) :: nat)" "(of_char (last s) :: nat) < 0x80"
  shows "wsSuffixLen s = 0"
proof -
  have "rev s \<noteq> []" "hd (rev s) = last s" using assms(1) by (simp_all add: hd_rev)
  then obtain r where r: "rev s = last s # r" by (cases "rev s") auto
  have a: "\<not> isWhiteSpace (last s)" "\<And>b. \<not> isWhiteSpace2 b (last s)" "\<And>a b. \<not> isWhiteSpace3 a b (last s)"
    using assms(2) assms(3) ws_lead_bytes(1) [of "last s"] ws_last_bytes [where b = "last s"]
          ws_last_bytes(2) [where c = "last s"]
    by fastforce+
  show ?thesis
    unfolding wsSuffixLen_def r by (simp add: a split: list.splits)
qed

lemma trim_printable:
  assumes "s \<noteq> []" "0x21 \<le> (of_char (hd s) :: nat)" "(of_char (hd s) :: nat) < 0x80"
      "0x21 \<le> (of_char (last s) :: nat)" "(of_char (last s) :: nat) < 0x80"
  shows "trim s = s"
  using assms by (simp add: trim_def trimStart_id trimEnd_id wsPrefixLen_printable wsSuffixLen_printable)

lemma trim_id: "\<forall>c\<in>set s. 0x21 \<le> (of_char c :: nat) \<and> (of_char c :: nat) < 0x80 \<Longrightarrow> trim s = s"
proof (cases "s = []")
  case True
  then show ?thesis by (simp add: trim_def trimStart.simps [of "[]"] trimEnd.simps [of "[]"])
next
  case False
  assume "\<forall>c\<in>set s. 0x21 \<le> (of_char c :: nat) \<and> (of_char c :: nat) < 0x80"
  with False show ?thesis by (intro trim_printable) simp_all
qed

lemma isIdChar_printable: "isIdChar c \<Longrightarrow> 0x21 \<le> (of_char c :: nat) \<and> (of_char c :: nat) < 0x80"
  by (auto simp: isIdChar_def isAlnum_def Let_def)

lemma trim_examples:
  "trim ''   '' = []"
  "trim ('' Hello world '') = ''Hello world''"
  "trim [CHR 0xC2, CHR 0xA0, CHR 0xEF, CHR 0xBB, CHR 0xBF, CHR 0xE2, CHR 0x80, CHR 0xA8] = []"
  "trim ''ab c '' = ''ab c''"
  "trim [] = []"
  "trim [CHR 0xC2, CHR 0xA0, CHR ''x'', CHR 0xE3, CHR 0x80, CHR 0x80] = ''x''"
  by (simp_all add: trim_def trimStart.simps trimEnd.simps wsPrefixLen_def wsSuffixLen_def
      isWhiteSpace_def isWhiteSpace2_def isWhiteSpace3_def)

lemma parseInt_examples:
  "parseInt ''0'' = Whole 0" "parseInt ''1500'' = Whole 1500" "parseInt ''4000'' = Whole 4000"
  "parseInt ''7'' = Whole 7" "parseInt ''5'' = Whole 5" "parseInt ''9'' = Whole 9"
  "parseInt ''10'' = Whole 10" "parseInt ''20'' = Whole 20" "parseInt ''30'' = Whole 30"
  "parseInt ''40'' = Whole 40" "parseInt ''1000'' = Whole 1000" "parseInt ''3000'' = Whole 3000"
  by (simp_all add: parseInt_def trimStart_id wsPrefixLen_def isWhiteSpace_def isWhiteSpace2_def
      isWhiteSpace3_def isDigit_def digitsValue_def Let_def)

lemma extractVideoId_bare:
  "isVideoIdPattern s \<Longrightarrow> extractVideoId s = Some s"
proof -
  assume a: "isVideoIdPattern s"
  then have "\<forall>c\<in>set s. 0x21 \<le> (of_char c :: nat) \<and> (of_char c :: nat) < 0x80"
    by (auto simp: isVideoIdPattern_def list_all_iff dest: isIdChar_printable)
  then have "trim s = s" by (rule trim_id)
  with a show ?thesis by (simp add: extractVideoId_def)
qed

lemma sampleId: "isVideoIdPattern ''dQw4w9WgXcQ''"
  by (simp add: isVideoIdPattern_def isIdChar_def isAlnum_def)

lemma parse_sample: "parseTranscriptSegments sampleResponse = sampleSegments"
  by (simp add: parseTranscriptSegments_def sampleResponse_def sampleSegments_def orElse_def
      snippetText_def flattenText_def trim_id parseInt_examples Let_def)

lemma extractVideoId_hello: "extractVideoId ''hello'' = None"
  by (simp add: extractVideoId_def trim_id isVideoIdPattern_def idFromUrl_def startsWith_def
  parseURL_def stripC0_def isC0OrSpace_def isTabOrNewline_def splitScheme_def isAlpha_def isAlnum_def toLowerCase_def lowerChar_def
  parseAuthority_def afterLast_def parseHost_def isForbiddenDomainChar_def isForbiddenHostChar_def parsePath_def
  hexVal_def isSingleDot_def isDoubleDot_def stripWww_def lastResortAt_def matchIdAfter_def firstSome_def Let_def char_of_eq_iff
  isDigit_def digitsValue_def)

subsection \<open>Identifier resolution: the supported shapes\<close>

lemma idchars_takeWhile:
  "\<forall>c\<in>set v. isIdChar c \<Longrightarrow> (\<And>c. isIdChar c \<Longrightarrow> P c) \<Longrightarrow> takeWhile P (v @ r) = v @ takeWhile P r"
  by (induction v) auto

lemma idchars_dropWhile:
  "\<forall>c\<in>set v. isIdChar c \<Longrightarrow> (\<And>c. isIdChar c \<Longrightarrow> P c) \<Longrightarrow> dropWhile P (v @ r) = dropWhile P r"
  by (induction v) auto

lemma idchar_facts:
  assumes "isIdChar c"
  shows "c \<noteq> CHR ''/''" "c \<noteq> CHR ''?''" "c \<noteq> CHR ''#''" "c \<noteq> CHR 0x5C" "c \<noteq> CHR '':''"
    "c \<noteq> CHR ''@''" "c \<noteq> CHR ''%''" "c \<noteq> CHR ''+''" "c \<noteq> CHR ''&''" "c \<noteq> CHR ''=''"
    "c \<noteq> CHR ''.''" "\<not> isTabOrNewline c" "\<not> isC0OrSpace c" "\<not> isWhiteSpace c"
  using assms
  by (auto simp: isIdChar_def isAlnum_def Let_def isTabOrNewline_def isC0OrSpace_def isWhiteSpace_def)

lemma stripC0_id: "\<forall>c\<in>set s. \<not> isC0OrSpace c \<Longrightarrow> stripC0 s = s"
proof (cases "s = []")
  case True
  then show ?thesis by (simp add: stripC0_def)
next
  case False
  assume "\<forall>c\<in>set s. \<not> isC0OrSpace c"
  with False have "\<not> isC0OrSpace (hd s)" "\<not> isC0OrSpace (last s)" by simp_all
  then have "dropWhile isC0OrSpace s = s" "dropWhile isC0OrSpace (rev s) = rev s"
    using False by (simp_all add: dropWhile_eq_self_iff hd_rev)
  then show ?thesis by (simp add: stripC0_def)
qed

lemma tab_is_C0: "isTabOrNewline c \<Longrightarrow> isC0OrSpace c"
  by (auto simp: isTabOrNewline_def isC0OrSpace_def)

lemma clean_id:
  "\<forall>c\<in>set s. \<not> isC0OrSpace c \<Longrightarrow> filter (\<lambda>c. \<not> isTabOrNewline c) (stripC0 s) = s"
  using tab_is_C0 by (auto simp: stripC0_id filter_id_conv)

lemma splitOn_idchars:
  "\<forall>c\<in>set v. \<not> P c \<Longrightarrow> splitOn P v = [v]"
  by (induction v) auto

lemma percentDecode_id: "CHR ''%'' \<notin> set s \<Longrightarrow> percentDecode s = s"
  by (induction s rule: percentDecode.induct) auto

lemma vid_facts:
  assumes "isVideoIdPattern vid"
  shows "length vid = 11" "\<forall>c\<in>set vid. isIdChar c" "vid \<noteq> []" "list_all isIdChar vid"
  using assms by (auto simp: isVideoIdPattern_def list_all_iff)

lemma takeWhile_prefix:
  "\<forall>c\<in>set xs. P c \<Longrightarrow> ys = [] \<or> \<not> P (hd ys) \<Longrightarrow> takeWhile P (xs @ ys) = xs"
  by (cases ys) (simp_all add: takeWhile_append2)

lemma dropWhile_prefix:
  "\<forall>c\<in>set xs. P c \<Longrightarrow> ys = [] \<or> \<not> P (hd ys) \<Longrightarrow> dropWhile P (xs @ ys) = ys"
  by (cases ys) (simp_all add: dropWhile_append2)

lemma splitScheme_http:
  "sch = ''http'' \<or> sch = ''https'' \<Longrightarrow> splitScheme (sch @ CHR '':'' # r) = Some (sch, r)"
  by (auto simp: splitScheme_def isAlpha_def isAlnum_def toLowerCase_def lowerChar_def)

lemma parseURL_special:
  assumes inp: "\<forall>c\<in>set inp. \<not> isC0OrSpace c"
      and split: "splitScheme inp = Some (sc, ''//'' @ host @ rest)"
      and sc: "sc = ''http'' \<or> sc = ''https''"
      and host: "parseAuthority True host = Some h" "host \<noteq> []"
                "\<forall>c\<in>set host. c \<noteq> CHR ''/'' \<and> c \<noteq> CHR ''?'' \<and> c \<noteq> CHR ''#'' \<and> c \<noteq> CHR 0x5C"
      and rest: "rest = [] \<or> hd rest = CHR ''/''"
  shows "parseURL inp =
     Some \<lparr>hostname = h,
           pathname = parsePath True (takeWhile (\<lambda>c. c \<noteq> CHR ''?'' \<and> c \<noteq> CHR ''#'') rest),
           search = (if take 1 (dropWhile (\<lambda>c. c \<noteq> CHR ''?'' \<and> c \<noteq> CHR ''#'') rest) = ''?''
                     then takeWhile (\<lambda>c. c \<noteq> CHR ''#'')
                            (drop 1 (dropWhile (\<lambda>c. c \<noteq> CHR ''?'' \<and> c \<noteq> CHR ''#'') rest))
                     else [])\<rparr>"
proof -
  have clean: "filter (\<lambda>c. \<not> isTabOrNewline c) (stripC0 inp) = inp"
    using inp by (rule clean_id)
  have "hd (host @ rest) = hd host" using host(2) by simp
  moreover have "hd host \<in> set host" using host(2) by simp
  ultimately have "dropWhile (\<lambda>c. c = CHR ''/'' \<or> c = CHR 0x5C) (host @ rest) = host @ rest"
    using host(2) host(3) by (simp add: dropWhile_eq_self_iff)
  then have r: "dropWhile (\<lambda>c. c = CHR ''/'' \<or> c = CHR 0x5C) (''//'' @ host @ rest) = host @ rest"
    by simp
  have auth: "takeWhile (\<lambda>c. \<not> (c = CHR ''/'' \<or> c = CHR ''?'' \<or> c = CHR ''#'' \<or> c = CHR 0x5C)) (host @ rest) = host"
    using host(3) rest by (intro takeWhile_prefix) auto
  have after: "dropWhile (\<lambda>c. \<not> (c = CHR ''/'' \<or> c = CHR ''?'' \<or> c = CHR ''#'' \<or> c = CHR 0x5C)) (host @ rest) = rest"
    using host(3) rest by (intro dropWhile_prefix) auto
  have special: "(sc = ''http'' \<or> sc = ''https'') = True" using sc by simp
  show ?thesis
    unfolding parseURL_def clean Let_def split
    by (simp only: option.case prod.case special r auth after host(1) if_True if_False not_True_eq_False simp_thms)
qed

lemma parseAuthority_hosts:
  "parseAuthority True ''youtube.com'' = Some ''youtube.com''"
  "parseAuthority True ''www.youtube.com'' = Some ''www.youtube.com''"
  "parseAuthority True ''m.youtube.com'' = Some ''m.youtube.com''"
  "parseAuthority True ''youtu.be'' = Some ''youtu.be''"
  "parseAuthority True ''www.youtu.be'' = Some ''www.youtu.be''"
  by (simp_all add: parseAuthority_def afterLast_def parseHost_def toLowerCase_def lowerChar_def hexVal_def
        isForbiddenDomainChar_def isForbiddenHostChar_def isDigit_def digitsValue_def Let_def)

lemma not_dots: "length s = 11 \<Longrightarrow> \<not> isDoubleDot s \<and> \<not> isSingleDot s"
  by (auto simp: isDoubleDot_def isSingleDot_def toLowerCase_def dest!: arg_cong [where f = length])

lemma lit_not_dots:
  "\<not> isDoubleDot ''watch''" "\<not> isSingleDot ''watch''"
  "\<not> isDoubleDot ''shorts''" "\<not> isSingleDot ''shorts''"
  "\<not> isDoubleDot ''embed''" "\<not> isSingleDot ''embed''"
  "\<not> isDoubleDot ''v''" "\<not> isSingleDot ''v''"
  by (simp_all add: isDoubleDot_def isSingleDot_def toLowerCase_def lowerChar_def)

lemma parsePath_lit:
  assumes "isVideoIdPattern vid"
  shows "parsePath True ''/watch'' = ''/watch''"
    and "parsePath True (''/'' @ vid) = ''/'' @ vid"
    and "parsePath True (''/shorts/'' @ vid) = ''/shorts/'' @ vid"
    and "parsePath True (''/embed/'' @ vid) = ''/embed/'' @ vid"
    and "parsePath True (''/v/'' @ vid) = ''/v/'' @ vid"
proof -
  note v = vid_facts [OF assms]
  have sp: "splitOn (\<lambda>c. c = CHR ''/'' \<or> c = CHR 0x5C) vid = [vid]"
    using v(2) by (intro splitOn_idchars) (auto simp: idchar_facts)
  note nd = not_dots [OF v(1)]
  show "parsePath True ''/watch'' = ''/watch''"
    by (simp add: parsePath_def lit_not_dots)
  show "parsePath True (''/'' @ vid) = ''/'' @ vid"
    by (simp add: parsePath_def sp nd)
  show "parsePath True (''/shorts/'' @ vid) = ''/shorts/'' @ vid"
    by (simp add: parsePath_def sp nd lit_not_dots)
  show "parsePath True (''/embed/'' @ vid) = ''/embed/'' @ vid"
    by (simp add: parsePath_def sp nd lit_not_dots)
  show "parsePath True (''/v/'' @ vid) = ''/v/'' @ vid"
    by (simp add: parsePath_def sp nd lit_not_dots)
qed

lemma parseURL_host_rest:
  assumes vid: "isVideoIdPattern vid"
      and sch: "sch = ''http'' \<or> sch = ''https''"
      and H: "H = ''youtube.com'' \<or> H = ''www.youtube.com'' \<or> H = ''m.youtube.com''
              \<or> H = ''youtu.be'' \<or> H = ''www.youtu.be''"
      and lit: "\<forall>c\<in>set lit. \<not> isC0OrSpace c" "hd (lit @ vid) = CHR ''/''"
  shows "parseURL (sch @ ''://'' @ H @ lit @ vid) =
     Some \<lparr>hostname = H,
           pathname = parsePath True (takeWhile (\<lambda>c. c \<noteq> CHR ''?'' \<and> c \<noteq> CHR ''#'') (lit @ vid)),
           search = (if take 1 (dropWhile (\<lambda>c. c \<noteq> CHR ''?'' \<and> c \<noteq> CHR ''#'') (lit @ vid)) = ''?''
                     then takeWhile (\<lambda>c. c \<noteq> CHR ''#'')
                            (drop 1 (dropWhile (\<lambda>c. c \<noteq> CHR ''?'' \<and> c \<noteq> CHR ''#'') (lit @ vid)))
                     else [])\<rparr>"
proof -
  note v = vid_facts [OF vid]
  have c1: "\<forall>c\<in>set sch. \<not> isC0OrSpace c"
    using sch by (elim disjE) (simp_all add: isC0OrSpace_def)
  have c2: "\<forall>c\<in>set H. \<not> isC0OrSpace c"
    using H by (elim disjE) (simp_all add: isC0OrSpace_def)
  have c3: "\<forall>c\<in>set vid. \<not> isC0OrSpace c"
    using v(2) by (simp add: idchar_facts)
  have c4: "\<forall>c\<in>set ''://''. \<not> isC0OrSpace c"
    by (simp add: isC0OrSpace_def)
  have inp: "\<forall>c\<in>set (sch @ ''://'' @ H @ lit @ vid). \<not> isC0OrSpace c"
    using c1 c2 c3 c4 lit(1) by (simp only: set_append ball_Un simp_thms)
  have split: "splitScheme (sch @ ''://'' @ H @ lit @ vid) = Some (sch, ''//'' @ H @ lit @ vid)"
    using splitScheme_http [OF sch, of "''//'' @ H @ lit @ vid"] by simp
  have h1: "parseAuthority True H = Some H"
    using H by (elim disjE) (simp_all only: parseAuthority_hosts)
  have h2: "H \<noteq> []" using H by auto
  have h3: "\<forall>c\<in>set H. c \<noteq> CHR ''/'' \<and> c \<noteq> CHR ''?'' \<and> c \<noteq> CHR ''#'' \<and> c \<noteq> CHR 0x5C"
    using H by (elim disjE) simp_all
  show ?thesis
    by (rule parseURL_special [OF inp split sch h1 h2 h3 disjI2 [OF lit(2)]])
qed

lemma ws_is_C0: "isWhiteSpace c \<Longrightarrow> isC0OrSpace c"
  by (auto simp: isWhiteSpace_def isC0OrSpace_def)

lemma url_input:
  assumes vid: "isVideoIdPattern vid"
      and pre: "pre = [] \<or> pre = ''http://'' \<or> pre = ''https://''"
      and H: "H = ''youtube.com'' \<or> H = ''www.youtube.com'' \<or> H = ''m.youtube.com''
              \<or> H = ''youtu.be'' \<or> H = ''www.youtu.be''"
      and lit: "\<forall>c\<in>set lit. \<not> isC0OrSpace c" "hd (lit @ vid) = CHR ''/''"
  defines "t \<equiv> pre @ H @ lit @ vid"
  shows "trim t = t" and "\<not> isVideoIdPattern t"
    and "parseURL (if startsWith t ''http'' then t else ''https://'' @ t) =
     Some \<lparr>hostname = H,
           pathname = parsePath True (takeWhile (\<lambda>c. c \<noteq> CHR ''?'' \<and> c \<noteq> CHR ''#'') (lit @ vid)),
           search = (if take 1 (dropWhile (\<lambda>c. c \<noteq> CHR ''?'' \<and> c \<noteq> CHR ''#'') (lit @ vid)) = ''?''
                     then takeWhile (\<lambda>c. c \<noteq> CHR ''#'')
                            (drop 1 (dropWhile (\<lambda>c. c \<noteq> CHR ''?'' \<and> c \<noteq> CHR ''#'') (lit @ vid)))
                     else [])\<rparr>"
proof -
  note v = vid_facts [OF vid]
  have c1: "\<forall>c\<in>set pre. \<not> isC0OrSpace c"
    using pre by (elim disjE) (simp_all add: isC0OrSpace_def)
  have c2: "\<forall>c\<in>set H. \<not> isC0OrSpace c"
    using H by (elim disjE) (simp_all add: isC0OrSpace_def)
  have c3: "\<forall>c\<in>set vid. \<not> isC0OrSpace c"
    using v(2) by (simp add: idchar_facts)
  have "\<forall>c\<in>set t. \<not> isC0OrSpace c"
    unfolding t_def using c1 c2 c3 lit(1) by (simp only: set_append ball_Un simp_thms)
  have hne: "H \<noteq> []" using H by auto
  have vne: "vid \<noteq> []" by (rule v(3))
  have "hd t = hd (pre @ H)" unfolding t_def using hne by (cases pre) simp_all
  then have "0x21 \<le> (of_char (hd t) :: nat) \<and> (of_char (hd t) :: nat) < 0x80"
    using pre H by (elim disjE) simp_all
  moreover have "last t = last vid" unfolding t_def using vne by simp
  then have "0x21 \<le> (of_char (last t) :: nat) \<and> (of_char (last t) :: nat) < 0x80"
    using v(2) vne isIdChar_printable [of "last vid"] by simp
  moreover have "t \<noteq> []" unfolding t_def using vne by simp
  ultimately show "trim t = t" by (intro trim_printable) simp_all
  have "H \<noteq> []" using H by auto
  then have "length t > 11" unfolding t_def using v(1) by (cases H) simp_all
  then show "\<not> isVideoIdPattern t" by (simp add: isVideoIdPattern_def)
  have "(if startsWith t ''http'' then t else ''https://'' @ t) =
        (if pre = ''http://'' then ''http'' else ''https'') @ ''://'' @ H @ lit @ vid"
    unfolding t_def using pre H by (elim disjE) (simp_all add: startsWith_def)
  moreover have "(if pre = ''http://'' then ''http'' else ''https'') = ''http''
      \<or> (if pre = ''http://'' then ''http'' else ''https'') = ''https''" by simp
  ultimately show "parseURL (if startsWith t ''http'' then t else ''https://'' @ t) =
     Some \<lparr>hostname = H,
           pathname = parsePath True (takeWhile (\<lambda>c. c \<noteq> CHR ''?'' \<and> c \<noteq> CHR ''#'') (lit @ vid)),
           search = (if take 1 (dropWhile (\<lambda>c. c \<noteq> CHR ''?'' \<and> c \<noteq> CHR ''#'') (lit @ vid)) = ''?''
                     then takeWhile (\<lambda>c. c \<noteq> CHR ''#'')
                            (drop 1 (dropWhile (\<lambda>c. c \<noteq> CHR ''?'' \<and> c \<noteq> CHR ''#'') (lit @ vid)))
                     else [])\<rparr>"
    using parseURL_host_rest [OF vid _ H lit] by simp
qed

lemma formDecode_vid:
  assumes "isVideoIdPattern vid"
  shows "formDecode vid = vid"
proof -
  note v = vid_facts [OF assms]
  have "map (\<lambda>c. if c = CHR ''+'' then CHR '' '' else c) vid = vid"
    using v(2) by (intro map_idI) (auto simp: idchar_facts)
  moreover have "CHR ''%'' \<notin> set vid" using v(2) idchar_facts(7) by blast
  ultimately show ?thesis by (simp add: formDecode_def percentDecode_id)
qed

lemma searchParamsGet_v:
  assumes "isVideoIdPattern vid"
  shows "searchParamsGet (''v='' @ vid) ''v'' = Some vid"
proof -
  note v = vid_facts [OF assms]
  have sp: "splitOn (\<lambda>c. c = CHR ''&'') vid = [vid]"
    using v(2) by (intro splitOn_idchars) (auto simp: idchar_facts)
  have fv: "formDecode ''v'' = ''v''" by (simp add: formDecode_def)
  show ?thesis
    by (simp add: searchParamsGet_def sp fv formDecode_vid [OF assms])
qed

lemma searchParamsGet_empty: "searchParamsGet [] k = None"
  by (simp add: searchParamsGet_def)

lemma pathMatch_shapes:
  assumes "isVideoIdPattern vid"
  shows "pathMatch (''/shorts/'' @ vid) = Some vid"
    and "pathMatch (''/embed/'' @ vid) = Some vid"
    and "pathMatch (''/v/'' @ vid) = Some vid"
  using assms vid_facts(1) [OF assms]
  by (simp_all add: pathMatch_def matchIdAfter_def startsWith_def firstSome_def)

lemma tails:
  assumes "isVideoIdPattern vid"
  shows "takeWhile (\<lambda>c. c \<noteq> CHR ''?'' \<and> c \<noteq> CHR ''#'') vid = vid"
    and "dropWhile (\<lambda>c. c \<noteq> CHR ''?'' \<and> c \<noteq> CHR ''#'') vid = []"
    and "takeWhile (\<lambda>c. c \<noteq> CHR ''#'') vid = vid"
    and "takeWhile (\<lambda>c. c \<noteq> CHR ''/'') vid = vid"
  using vid_facts(2) [OF assms]
  by (simp_all add: idchar_facts takeWhile_eq_all_conv)

lemma stripWww_hosts:
  "stripWww ''youtube.com'' = ''youtube.com''" "stripWww ''www.youtube.com'' = ''youtube.com''"
  "stripWww ''m.youtube.com'' = ''m.youtube.com''" "stripWww ''youtu.be'' = ''youtu.be''"
  "stripWww ''www.youtu.be'' = ''youtu.be''"
  by (simp_all add: stripWww_def startsWith_def)

lemma extractVideoId_via_url:
  "trim t = t \<Longrightarrow> \<not> isVideoIdPattern t \<Longrightarrow> idFromUrl t = Some v \<Longrightarrow> extractVideoId t = Some v"
  by (simp add: extractVideoId_def)

lemma idFromUrl_youtube:
  assumes "parseURL (if startsWith t ''http'' then t else ''https://'' @ t)
             = Some \<lparr>hostname = H, pathname = P, search = Q\<rparr>"
      and "stripWww H = ''youtube.com'' \<or> stripWww H = ''m.youtube.com''"
      and "(searchParamsGet Q ''v'' = Some v \<and> isVideoIdPattern v)
           \<or> (searchParamsGet Q ''v'' = None \<and> pathMatch P = Some v)"
  shows "idFromUrl t = Some v"
proof -
  have ny: "stripWww H \<noteq> ''youtu.be''" using assms(2) by auto
  have ne: "isVideoIdPattern v \<Longrightarrow> v \<noteq> []" by (auto simp: isVideoIdPattern_def)
  show ?thesis
    unfolding idFromUrl_def assms(1) Let_def
    using assms(2) assms(3) ny ne by (auto simp del: stripWww_hosts)
qed

lemma idFromUrl_short:
  assumes "parseURL (if startsWith t ''http'' then t else ''https://'' @ t)
             = Some \<lparr>hostname = H, pathname = CHR ''/'' # v, search = Q\<rparr>"
      and "stripWww H = ''youtu.be''"
      and "isVideoIdPattern v"
  shows "idFromUrl t = Some v"
proof -
  have ne: "v \<noteq> []" using assms(3) by (auto simp: isVideoIdPattern_def)
  show ?thesis
    unfolding idFromUrl_def assms(1) Let_def
    using assms(2) assms(3) ne by (simp add: tails [OF assms(3)])
qed

lemma rest_watch:
  "takeWhile (\<lambda>c. c \<noteq> CHR ''?'' \<and> c \<noteq> CHR ''#'') (''/watch?v='' @ vid) = ''/watch''"
  "dropWhile (\<lambda>c. c \<noteq> CHR ''?'' \<and> c \<noteq> CHR ''#'') (''/watch?v='' @ vid) = ''?v='' @ vid"
  by simp_all

lemma rest_watch2:
  assumes vid: "isVideoIdPattern vid"
  shows "takeWhile (\<lambda>c. c \<noteq> CHR ''#'') (''v='' @ vid) = ''v='' @ vid"
  by (simp add: tails [OF vid])

lemma parse_watch:
  assumes vid: "isVideoIdPattern vid"
      and pre: "pre = [] \<or> pre = ''http://'' \<or> pre = ''https://''"
      and H: "H = ''youtube.com'' \<or> H = ''www.youtube.com'' \<or> H = ''m.youtube.com''"
  shows "parseURL (if startsWith (pre @ H @ ''/watch?v='' @ vid) ''http'' then pre @ H @ ''/watch?v='' @ vid
                         else ''https://'' @ pre @ H @ ''/watch?v='' @ vid)
      = Some \<lparr>hostname = H, pathname = ''/watch'', search = ''v='' @ vid\<rparr>"
proof -
  have H5: "H = ''youtube.com'' \<or> H = ''www.youtube.com'' \<or> H = ''m.youtube.com''
              \<or> H = ''youtu.be'' \<or> H = ''www.youtu.be''" using H by (elim disjE) simp_all
  have lit: "\<forall>c\<in>set ''/watch?v=''. \<not> isC0OrSpace c" "hd (''/watch?v='' @ vid) = CHR ''/''"
    by (simp_all add: isC0OrSpace_def)
  note u = url_input [OF vid pre H5 lit]
  show ?thesis
    by (simp only: u(3) rest_watch rest_watch2 [OF vid] parsePath_lit(1) [OF vid])
       (simp add: tails [OF vid])
qed

lemma extractVideoId_watch:
  assumes vid: "isVideoIdPattern vid"
      and pre: "pre = [] \<or> pre = ''http://'' \<or> pre = ''https://''"
      and H: "H = ''youtube.com'' \<or> H = ''www.youtube.com'' \<or> H = ''m.youtube.com''"
  shows "extractVideoId (pre @ H @ ''/watch?v='' @ vid) = Some vid"
proof -
  have H5: "H = ''youtube.com'' \<or> H = ''www.youtube.com'' \<or> H = ''m.youtube.com''
              \<or> H = ''youtu.be'' \<or> H = ''www.youtu.be''" using H by (elim disjE) simp_all
  have lit: "\<forall>c\<in>set ''/watch?v=''. \<not> isC0OrSpace c" "hd (''/watch?v='' @ vid) = CHR ''/''"
    by (simp_all add: isC0OrSpace_def)
  note u = url_input [OF vid pre H5 lit]
  have sw: "stripWww H = ''youtube.com'' \<or> stripWww H = ''m.youtube.com''"
    using H by (elim disjE) (simp_all add: stripWww_hosts)
  have sp: "(searchParamsGet (''v='' @ vid) ''v'' = Some vid \<and> isVideoIdPattern vid)
           \<or> (searchParamsGet (''v='' @ vid) ''v'' = None \<and> pathMatch ''/watch'' = Some vid)"
    using searchParamsGet_v [OF vid] vid by (intro disjI1 conjI)
  have "idFromUrl (pre @ H @ ''/watch?v='' @ vid) = Some vid"
    by (rule idFromUrl_youtube [OF parse_watch [OF vid pre H] sw sp])
  with u(1) u(2) show ?thesis by (rule extractVideoId_via_url)
qed

lemma parse_path:
  assumes vid: "isVideoIdPattern vid"
      and pre: "pre = [] \<or> pre = ''http://'' \<or> pre = ''https://''"
      and H: "H = ''youtube.com'' \<or> H = ''www.youtube.com'' \<or> H = ''m.youtube.com''
              \<or> H = ''youtu.be'' \<or> H = ''www.youtu.be''"
      and lit: "lit = ''/'' \<or> lit = ''/shorts/'' \<or> lit = ''/embed/'' \<or> lit = ''/v/''"
  shows "parseURL (if startsWith (pre @ H @ lit @ vid) ''http'' then pre @ H @ lit @ vid
                         else ''https://'' @ pre @ H @ lit @ vid)
      = Some \<lparr>hostname = H, pathname = lit @ vid, search = []\<rparr>"
    and "trim (pre @ H @ lit @ vid) = pre @ H @ lit @ vid"
    and "\<not> isVideoIdPattern (pre @ H @ lit @ vid)"
proof -
  have l1: "\<forall>c\<in>set lit. \<not> isC0OrSpace c"
    using lit by (elim disjE) (simp_all add: isC0OrSpace_def)
  have l2: "hd (lit @ vid) = CHR ''/''"
    using lit by (elim disjE) simp_all
  note u = url_input [OF vid pre H l1 l2]
  have tw: "takeWhile (\<lambda>c. c \<noteq> CHR ''?'' \<and> c \<noteq> CHR ''#'') (lit @ vid) = lit @ vid"
           "dropWhile (\<lambda>c. c \<noteq> CHR ''?'' \<and> c \<noteq> CHR ''#'') (lit @ vid) = []"
    using lit by (elim disjE; simp add: tails [OF vid])+
  have pp: "parsePath True (lit @ vid) = lit @ vid"
    using lit by (elim disjE) (simp_all only: parsePath_lit [OF vid])
  show "parseURL (if startsWith (pre @ H @ lit @ vid) ''http'' then pre @ H @ lit @ vid
                         else ''https://'' @ pre @ H @ lit @ vid)
      = Some \<lparr>hostname = H, pathname = lit @ vid, search = []\<rparr>"
    by (simp only: u(3) tw pp) simp
  show "trim (pre @ H @ lit @ vid) = pre @ H @ lit @ vid" by (rule u(1))
  show "\<not> isVideoIdPattern (pre @ H @ lit @ vid)" by (rule u(2))
qed

lemma extractVideoId_path:
  assumes vid: "isVideoIdPattern vid"
      and pre: "pre = [] \<or> pre = ''http://'' \<or> pre = ''https://''"
      and H: "H = ''youtube.com'' \<or> H = ''www.youtube.com'' \<or> H = ''m.youtube.com''"
      and lit: "lit = ''/shorts/'' \<or> lit = ''/embed/'' \<or> lit = ''/v/''"
  shows "extractVideoId (pre @ H @ lit @ vid) = Some vid"
proof -
  have H5: "H = ''youtube.com'' \<or> H = ''www.youtube.com'' \<or> H = ''m.youtube.com''
              \<or> H = ''youtu.be'' \<or> H = ''www.youtu.be''" using H by (elim disjE) simp_all
  have lit4: "lit = ''/'' \<or> lit = ''/shorts/'' \<or> lit = ''/embed/'' \<or> lit = ''/v/''"
    using lit by (elim disjE) simp_all
  note p = parse_path [OF vid pre H5 lit4]
  have sw: "stripWww H = ''youtube.com'' \<or> stripWww H = ''m.youtube.com''"
    using H by (elim disjE) (simp_all add: stripWww_hosts)
  have pm: "pathMatch (lit @ vid) = Some vid"
    using lit by (elim disjE) (simp_all only: pathMatch_shapes [OF vid])
  have sp: "(searchParamsGet [] ''v'' = Some vid \<and> isVideoIdPattern vid)
           \<or> (searchParamsGet [] ''v'' = None \<and> pathMatch (lit @ vid) = Some vid)"
    using searchParamsGet_empty [of "''v''"] pm by (intro disjI2 conjI)
  have "idFromUrl (pre @ H @ lit @ vid) = Some vid"
    by (rule idFromUrl_youtube [OF p(1) sw sp])
  with p(2) p(3) show ?thesis by (rule extractVideoId_via_url)
qed

lemma extractVideoId_short:
  assumes vid: "isVideoIdPattern vid"
      and pre: "pre = [] \<or> pre = ''http://'' \<or> pre = ''https://''"
      and H: "H = ''youtu.be'' \<or> H = ''www.youtu.be''"
  shows "extractVideoId (pre @ H @ ''/'' @ vid) = Some vid"
proof -
  have H5: "H = ''youtube.com'' \<or> H = ''www.youtube.com'' \<or> H = ''m.youtube.com''
              \<or> H = ''youtu.be'' \<or> H = ''www.youtu.be''" using H by (elim disjE) simp_all
  have lit4: "''/'' = ''/'' \<or> ''/'' = ''/shorts/'' \<or> ''/'' = ''/embed/'' \<or> ''/'' = ''/v/''"
    by simp
  note p = parse_path [OF vid pre H5 lit4]
  have sw: "stripWww H = ''youtu.be''"
    using H by (elim disjE) (simp_all add: stripWww_hosts)
  have p1: "parseURL (if startsWith (pre @ H @ ''/'' @ vid) ''http'' then pre @ H @ ''/'' @ vid
                         else ''https://'' @ pre @ H @ ''/'' @ vid)
      = Some \<lparr>hostname = H, pathname = CHR ''/'' # vid, search = []\<rparr>"
    using p(1) by simp
  have "idFromUrl (pre @ H @ ''/'' @ vid) = Some vid"
    by (rule idFromUrl_short [OF p1 sw vid])
  with p(2) p(3) show ?thesis by (rule extractVideoId_via_url)
qed

text \<open>
  Claim C4. For every token of eleven characters of the identifier alphabet and every
  supported input shape that contains it (the bare identifier, and
  \<open>youtube.com/watch?v=\<close>, \<open>youtu.be/\<close>, \<open>youtube.com/shorts/\<close>, \<open>youtube.com/embed/\<close>
  and \<open>youtube.com/v/\<close> followed by the token, each with or without \<open>http://\<close> or
  \<open>https://\<close> and with or without \<open>www.\<close>), \<open>extractVideoId\<close> returns that token.
\<close>

theorem extractVideoId_supported_shapes:
  assumes vid: "isVideoIdPattern vid"
      and pre: "pre = [] \<or> pre = ''http://'' \<or> pre = ''https://''"
      and w: "w = [] \<or> w = ''www.''"
  shows "extractVideoId vid = Some vid
       \<and> extractVideoId (pre @ w @ ''youtube.com/watch?v='' @ vid) = Some vid
       \<and> extractVideoId (pre @ w @ ''youtu.be/'' @ vid) = Some vid
       \<and> extractVideoId (pre @ w @ ''youtube.com/shorts/'' @ vid) = Some vid
       \<and> extractVideoId (pre @ w @ ''youtube.com/embed/'' @ vid) = Some vid
       \<and> extractVideoId (pre @ w @ ''youtube.com/v/'' @ vid) = Some vid"
proof -
  have yt: "w @ ''youtube.com'' = ''youtube.com'' \<or> w @ ''youtube.com'' = ''www.youtube.com''
            \<or> w @ ''youtube.com'' = ''m.youtube.com''"
    using w by (elim disjE) simp_all
  have yb: "w @ ''youtu.be'' = ''youtu.be'' \<or> w @ ''youtu.be'' = ''www.youtu.be''"
    using w by (elim disjE) simp_all
  have "extractVideoId (pre @ (w @ ''youtube.com'') @ ''/watch?v='' @ vid) = Some vid"
    by (rule extractVideoId_watch [OF vid pre yt])
  moreover have "extractVideoId (pre @ (w @ ''youtu.be'') @ ''/'' @ vid) = Some vid"
    by (rule extractVideoId_short [OF vid pre yb])
  moreover have "extractVideoId (pre @ (w @ ''youtube.com'') @ ''/shorts/'' @ vid) = Some vid"
    by (rule extractVideoId_path [OF vid pre yt]) simp
  moreover have "extractVideoId (pre @ (w @ ''youtube.com'') @ ''/embed/'' @ vid) = Some vid"
    by (rule extractVideoId_path [OF vid pre yt]) simp
  moreover have "extractVideoId (pre @ (w @ ''youtube.com'') @ ''/v/'' @ vid) = Some vid"
    by (rule extractVideoId_path [OF vid pre yt]) simp
  ultimately show ?thesis
    using extractVideoId_bare [OF vid] by simp
qed

theorem extractVideoId_supported_shapes_witness:
  "isVideoIdPattern ''dQw4w9WgXcQ''
   \<and> extractVideoId ''dQw4w9WgXcQ'' = Some ''dQw4w9WgXcQ''
   \<and> extractVideoId ''https://www.youtube.com/watch?v=dQw4w9WgXcQ'' = Some ''dQw4w9WgXcQ''
   \<and> extractVideoId ''https://www.youtu.be/dQw4w9WgXcQ'' = Some ''dQw4w9WgXcQ''
   \<and> extractVideoId ''https://www.youtube.com/shorts/dQw4w9WgXcQ'' = Some ''dQw4w9WgXcQ''
   \<and> extractVideoId ''https://www.youtube.com/embed/dQw4w9WgXcQ'' = Some ''dQw4w9WgXcQ''
   \<and> extractVideoId ''https://www.youtube.com/v/dQw4w9WgXcQ'' = Some ''dQw4w9WgXcQ''"
  using extractVideoId_supported_shapes [OF sampleId, of "''https://''" "''www.''"] sampleId
  by simp

subsection \<open>The transcript token\<close>

lemma b64val_b64char: "k < 64 \<Longrightarrow> b64val (b64char k) = Some k"
  unfolding b64val_def b64char_def Let_def
  by (auto simp: char_of_eq_iff take_bit_eq_mod)

lemma b64char_not_pad: "k < 64 \<Longrightarrow> b64char k \<noteq> CHR ''=''"
  unfolding b64char_def
  by (auto simp: char_of_eq_iff take_bit_eq_mod)

lemma b64char_ascii: "k < 64 \<Longrightarrow> (of_char (b64char k) :: nat) < 128"
  unfolding b64char_def by auto

lemma b64sextets_char: "k < 64 \<Longrightarrow> b64sextets (b64char k # cs) = k # b64sextets cs"
  by (simp add: b64val_b64char b64char_not_pad)

lemma of_char_lt_256: "(of_char (c::char) :: nat) < 256"
proof -
  have "(of_char c :: nat) = of_char (char_of (of_char c :: nat))" by simp
  also have "\<dots> = (of_char c :: nat) mod 256" by (simp only: of_char_of)
  finally have "(of_char c :: nat) = (of_char c :: nat) mod 256" .
  then show ?thesis by (metis mod_less_divisor zero_less_numeral)
qed

lemma group3:
  assumes "x < 256" "y < 256" "z < (256::nat)"
  shows "(x div 4) * 4 + ((x mod 4) * 16 + y div 16) div 16 = x"
    and "(((x mod 4) * 16 + y div 16) mod 16) * 16 + ((y mod 16) * 4 + z div 64) div 4 = y"
    and "(((y mod 16) * 4 + z div 64) mod 4) * 64 + z mod 64 = z"
    and "x div 4 < 64" "(x mod 4) * 16 + y div 16 < 64" "(y mod 16) * 4 + z div 64 < 64" "z mod 64 < 64"
  using assms by simp_all

lemma b64sextets_pad: "b64sextets (CHR ''='' # cs) = []"
  by simp

lemma group2:
  assumes "x < 256" "y < (256::nat)"
  shows "(x div 4) * 4 + ((x mod 4) * 16 + y div 16) div 16 = x"
    and "(((x mod 4) * 16 + y div 16) mod 16) * 16 + ((y mod 16) * 4) div 4 = y"
    and "(x mod 4) * 16 + y div 16 < 64" "(y mod 16) * 4 < 64"
  using assms by simp_all

lemma group1:
  assumes "x < (256::nat)"
  shows "(x div 4) * 4 + ((x mod 4) * 16) div 16 = x" and "(x mod 4) * 16 < 64"
  using assms by simp_all

lemma b64decode_encode: "b64decode (b64encode bs) = bs"
proof (induction bs rule: b64encode.induct)
  case (1 a b c rest)
  have x: "(of_char a :: nat) < 256" "(of_char b :: nat) < 256" "(of_char c :: nat) < 256"
    by (rule of_char_lt_256)+
  from 1 have ih: "b64bytes (b64sextets (b64encode rest)) = rest"
    by (simp add: b64decode_def)
  have "b64decode (b64encode (a # b # c # rest)) =
      b64bytes (of_char a div 4 # (of_char a mod 4 * 16 + of_char b div 16)
         # (of_char b mod 16 * 4 + of_char c div 64) # (of_char c mod 64) # b64sextets (b64encode rest))"
    by (simp add: b64decode_def Let_def b64sextets_char group3(4-7) [OF x] del: b64sextets.simps(2))
  also have "\<dots> = [char_of (of_char a :: nat), char_of (of_char b :: nat), char_of (of_char c :: nat)]
       @ b64bytes (b64sextets (b64encode rest))"
    by (simp only: b64bytes.simps group3(1-3) [OF x])
  finally show ?case by (simp add: ih)
next
  case (2 a b)
  have x: "(of_char a :: nat) < 256" "(of_char b :: nat) < 256"
    by (rule of_char_lt_256)+
  have "b64decode (b64encode [a, b]) =
      b64bytes [of_char a div 4, of_char a mod 4 * 16 + of_char b div 16, of_char b mod 16 * 4]"
    by (simp add: b64decode_def Let_def b64sextets_char b64sextets_pad group2(3-4) [OF x] group3(4) [OF x(1) x(1) x(1)]
        del: b64sextets.simps(2))
  also have "\<dots> = [char_of (of_char a :: nat), char_of (of_char b :: nat)]"
    by (simp only: b64bytes.simps group2(1-2) [OF x])
  finally show ?case by simp
next
  case (3 a)
  have x: "(of_char a :: nat) < 256"
    by (rule of_char_lt_256)
  have "b64decode (b64encode [a]) = b64bytes [of_char a div 4, of_char a mod 4 * 16]"
    by (simp add: b64decode_def Let_def b64sextets_char b64sextets_pad group1(2) [OF x] group3(4) [OF x x x]
        del: b64sextets.simps(2))
  also have "\<dots> = [char_of (of_char a :: nat)]"
    by (simp only: b64bytes.simps group1(1) [OF x])
  finally show ?case by simp
next
  case 4
  show ?case by (simp add: b64decode_def)
qed

lemma length_b64encode: "length (b64encode bs) = 4 * ((length bs + 2) div 3)"
proof (induction bs rule: b64encode.induct)
  case (1 a b c rest)
  have "(length rest + 5) div 3 = Suc ((length rest + 2) div 3)" by presburger
  with 1 show ?case by (simp add: Let_def add.commute)
qed (simp_all add: Let_def)

lemma b64encode_ascii: "c \<in> set (b64encode bs) \<Longrightarrow> (of_char c :: nat) < 128"
proof (induction bs rule: b64encode.induct)
  case (1 a b d rest)
  have x: "(of_char a :: nat) < 256" "(of_char b :: nat) < 256" "(of_char d :: nat) < 256"
    by (rule of_char_lt_256)+
  from 1 show ?case
    by (auto simp: Let_def intro!: b64char_ascii group3 [OF x])
next
  case (2 a b)
  have x: "(of_char a :: nat) < 256" "(of_char b :: nat) < 256" "(0::nat) < 256"
    by (simp_all add: of_char_lt_256)
  from 2 show ?case
    using group3(4-6) [OF x] by (auto simp: Let_def intro!: b64char_ascii)
next
  case (3 a)
  have x: "(of_char a :: nat) < 256" "(0::nat) < 256" "(0::nat) < 256"
    by (simp_all add: of_char_lt_256)
  from 3 show ?case
    using group3(4-5) [OF x] by (auto simp: Let_def intro!: b64char_ascii)
next
  case 4
  then show ?case by simp
qed

lemma b64encode_nonempty: "bs \<noteq> [] \<Longrightarrow> b64encode bs \<noteq> []"
  by (induction bs rule: b64encode.induct) (simp_all add: Let_def)

lemma hexVal_hexDigit: "d < 16 \<Longrightarrow> hexVal (hexDigit d) = Some d"
  unfolding hexVal_def hexDigit_def Let_def by auto

lemma unreserved_not_percent: "isUnreserved c \<Longrightarrow> c \<noteq> CHR ''%''"
  by (auto simp: isUnreserved_def isAlnum_def Let_def)

lemma encodeURIComponent_Cons:
  "encodeURIComponent (c # s) =
     (if isUnreserved c then [c]
      else [CHR ''%'', hexDigit (of_char c div 16), hexDigit (of_char c mod 16)]) @ encodeURIComponent s"
  by (simp add: encodeURIComponent_def)

lemma percentTokens_encode:
  "percentTokens (encodeURIComponent s) = Some (map (\<lambda>c. (\<not> isUnreserved c, c)) s)"
proof (induction s)
  case Nil
  show ?case by (simp add: encodeURIComponent_def)
next
  case (Cons c s)
  have lt: "(of_char c :: nat) div 16 < 16" "(of_char c :: nat) mod 16 < 16"
    using of_char_lt_256 [of c] by (simp_all add: less_mult_imp_div_less)
  have rt: "char_of (16 * ((of_char c :: nat) div 16) + of_char c mod 16) = c"
    by simp
  show ?case
  proof (cases "isUnreserved c")
    case True
    then show ?thesis
      by (simp add: encodeURIComponent_Cons Cons.IH unreserved_not_percent)
  next
    case False
    then show ?thesis
      by (simp add: encodeURIComponent_Cons Cons.IH hexVal_hexDigit lt rt del: mult_div_mod_eq)
  qed
qed

lemma utf8Escapes_ascii:
  "\<forall>t \<in> set ts. (of_char (snd t) :: nat) < 128 \<Longrightarrow> utf8Escapes 0 0 0 ts"
  by (induction ts) (auto simp: Let_def)

lemma decodeURIComponent_encode:
  "\<forall>c \<in> set s. (of_char c :: nat) < 128 \<Longrightarrow> decodeURIComponent (encodeURIComponent s) = Some s"
  by (simp add: decodeURIComponent_def percentTokens_encode utf8Escapes_ascii comp_def)

lemma length_encodeURIComponent: "length (encodeURIComponent s) \<le> 3 * length s"
  by (induction s) (simp_all add: encodeURIComponent_Cons, simp add: encodeURIComponent_def)

lemma encodeURIComponent_nonempty: "s \<noteq> [] \<Longrightarrow> encodeURIComponent s \<noteq> []"
  by (cases s) (simp_all add: encodeURIComponent_Cons)

lemma takeWhile_until: "b \<notin> set xs \<Longrightarrow> takeWhile (\<lambda>c. c \<noteq> b) (xs @ b # rest) = xs"
  by (induction xs) auto

lemma indexOfFrom_append:
  "off \<le> length p \<Longrightarrow> b \<notin> set (drop off p) \<Longrightarrow> indexOfFrom (p @ b # rest) b off = Some (length p)"
  by (simp add: indexOfFrom_def takeWhile_until)

lemma byteAt_append: "byteAt (p @ b # c # rest) (length p + 1) = Some (of_char c)"
  by (simp add: byteAt_def nth_append)

lemma subarray_append:
  "subarray (p @ b # c # q @ rest) (length p + 2) (length p + 2 + length q) = q"
  by (simp add: subarray_def)

lemma extractLang_layout:
  assumes p1: "12 \<le> length p1" "CHR 0x12 \<notin> set (drop 12 p1)"
      and cl: "(of_char cl :: nat) = length lp" "lp \<noteq> []"
      and dec: "decodeURIComponent lp = Some ib"
      and inner: "b64decode ib = q1 @ CHR 0x12 # cn # lang @ t2" "CHR 0x12 \<notin> set q1"
      and cn: "(of_char cn :: nat) = length lang" "lang \<noteq> []"
  shows "extractLangFromParams (b64encode (p1 @ CHR 0x12 # cl # lp @ t1)) = lang"
proof -
  have tag: "indexOfFrom (p1 @ CHR 0x12 # cl # lp @ t1) (CHR 0x12) 12 = Some (length p1)"
    using p1 by (rule indexOfFrom_append)
  have fl: "byteAt (p1 @ CHR 0x12 # cl # lp @ t1) (length p1 + 1) = Some (length lp)"
    by (simp only: byteAt_append cl)
  have sub: "subarray (p1 @ CHR 0x12 # cl # lp @ t1) (length p1 + 2) (length p1 + 2 + length lp) = lp"
    by (rule subarray_append)
  have itag: "indexOfFrom (q1 @ CHR 0x12 # cn # lang @ t2) (CHR 0x12) 0 = Some (length q1)"
    using inner(2) by (intro indexOfFrom_append) simp_all
  have il: "byteAt (q1 @ CHR 0x12 # cn # lang @ t2) (length q1 + 1) = Some (length lang)"
    by (simp only: byteAt_append cn)
  have isub: "subarray (q1 @ CHR 0x12 # cn # lang @ t2) (length q1 + 2) (length q1 + 2 + length lang) = lang"
    by (rule subarray_append)
  have l1: "length lp \<noteq> 0" "length lang \<noteq> 0" using cl(2) cn(2) by simp_all
  show ?thesis
    unfolding extractLangFromParams_def Let_def b64decode_encode
    by (simp only: tag fl sub dec inner(1) itag il isub option.case l1 if_False)
qed

lemma idchar_not_tag: "isIdChar c \<Longrightarrow> c \<noteq> CHR 0x12"
  by (auto simp: isIdChar_def isAlnum_def Let_def)

lemma token_roundtrip_layout:
  assumes vid: "isVideoIdPattern vid" and ne: "lang \<noteq> []" and len: "length lang \<le> 57"
  shows "extractLangFromParams (buildTranscriptParams vid lang) = lang"
proof -
  define inner where
    "inner = [CHR 0x0a, CHR 0x00] @ CHR 0x12 # char_of (length lang) # lang @ [CHR 0x1a, CHR 0x00]"
  define lp where "lp = encodeURIComponent (b64encode inner)"
  define p1 where "p1 = [CHR 0x0a, char_of (length vid)] @ vid"
  define t1 where
    "t1 = [CHR 0x18, CHR 0x01, CHR 0x2a,
           char_of (length ''engagement-panel-searchable-transcript-search-panel'')]
          @ ''engagement-panel-searchable-transcript-search-panel''
          @ [CHR 0x30, CHR 0x01, CHR 0x38, CHR 0x01, CHR 0x40, CHR 0x01]"
  have build: "buildTranscriptParams vid lang = b64encode (p1 @ CHR 0x12 # char_of (length lp) # lp @ t1)"
    unfolding buildTranscriptParams_def buildLangProto_def Let_def p1_def lp_def inner_def t1_def
    by simp
  have "length vid = 11" "\<forall>c \<in> set vid. isIdChar c"
    using vid by (simp_all add: isVideoIdPattern_def list_all_iff)
  then have p1: "12 \<le> length p1" "CHR 0x12 \<notin> set (drop 12 p1)"
    using idchar_not_tag by (auto simp: p1_def dest!: in_set_dropD)
  have "length inner \<le> 63" using len by (simp add: inner_def)
  then have "(length inner + 2) div 3 \<le> 21" by simp
  then have "length (b64encode inner) \<le> 84" by (simp add: length_b64encode)
  then have "length lp \<le> 252"
    using length_encodeURIComponent [of "b64encode inner"] by (simp add: lp_def)
  then have cl: "(of_char (char_of (length lp)) :: nat) = length lp" by simp
  have "inner \<noteq> []" by (simp add: inner_def)
  then have lpne: "lp \<noteq> []"
    by (simp add: lp_def encodeURIComponent_nonempty b64encode_nonempty)
  have dec: "decodeURIComponent lp = Some (b64encode inner)"
    unfolding lp_def by (rule decodeURIComponent_encode) (simp add: b64encode_ascii)
  have innerd: "b64decode (b64encode inner) =
      [CHR 0x0a, CHR 0x00] @ CHR 0x12 # char_of (length lang) # lang @ [CHR 0x1a, CHR 0x00]"
    by (simp only: b64decode_encode inner_def)
  have q1: "CHR 0x12 \<notin> set [CHR 0x0a, CHR 0x00]" by simp
  have cn: "(of_char (char_of (length lang)) :: nat) = length lang" using len by simp
  show ?thesis
    unfolding build
    by (rule extractLang_layout [OF p1 cl lpne dec innerd q1 cn ne])
qed

text \<open>
  Claim C3. The language read back from a freshly built token is the language it was
  built for: for every video identifier (eleven characters of the identifier alphabet),
  \<open>extractLangFromParams (buildTranscriptParams videoId "de")\<close> is \<open>"de"\<close>, and the same
  holds for every non-empty language code of at most 57 bytes.
\<close>

theorem token_language_roundtrip:
  assumes "isVideoIdPattern vid"
  shows "extractLangFromParams (buildTranscriptParams vid ''de'') = ''de''
       \<and> (lang \<noteq> [] \<and> length lang \<le> 57 \<longrightarrow>
            extractLangFromParams (buildTranscriptParams vid lang) = lang)"
  using token_roundtrip_layout [OF assms, of "''de''"] token_roundtrip_layout [OF assms, of lang]
  by simp

theorem token_language_roundtrip_witness:
  "isVideoIdPattern ''dQw4w9WgXcQ''
   \<and> extractLangFromParams (buildTranscriptParams ''dQw4w9WgXcQ'' ''de'') = ''de''
   \<and> ''pt-BR'' \<noteq> [] \<and> length ''pt-BR'' \<le> 57
   \<and> extractLangFromParams (buildTranscriptParams ''dQw4w9WgXcQ'' ''pt-BR'') = ''pt-BR''"
  using token_language_roundtrip [OF sampleId, of "''pt-BR''"] sampleId by simp

subsection \<open>Segment parsing\<close>

lemma flatten_spec: "map (\<lambda>c. if c = NL then CHR '' '' else c) t = spec_flattenNewlines t"
  by (induction t) simp_all

lemma snippetText_spec:
  "transcriptSegmentRenderer item = Some r \<Longrightarrow> flattenText (snippetText r) = spec_derivedText item"
  by (simp add: flattenText_def snippetText_def spec_derivedText_def spec_displayText_def flatten_spec
      orElse_def split: option.splits cong: option.case_cong)

lemma no_renderer_spec:
  "transcriptSegmentRenderer item = None \<Longrightarrow> spec_derivedText item = []"
  by (simp add: spec_derivedText_def spec_displayText_def trim_def trimStart.simps [of "[]"] trimEnd.simps [of "[]"])

lemma offset_spec: "parseInt (orElse f ''0'') = spec_offset f"
  by (cases f) (simp_all add: orElse_def spec_offset_def parseInt_examples(1))

lemma parseItems_spec:
  "parseItems items = map spec_segment (filter (\<lambda>i. spec_derivedText i \<noteq> []) items)"
proof (induction items)
  case Nil
  show ?case by simp
next
  case (Cons item items)
  show ?case
  proof (cases "transcriptSegmentRenderer item")
    case None
    then show ?thesis by (simp add: Cons.IH no_renderer_spec)
  next
    case (Some r)
    then show ?thesis
      by (simp add: Cons.IH snippetText_spec [OF Some] offset_spec spec_segment_def Let_def)
  qed
qed

lemma parseActions_find:
  "parseActions acts =
     (case find (\<lambda>a. parseItems (orElse (initialSegments a) []) \<noteq> []) acts of
        None \<Rightarrow> []
      | Some a \<Rightarrow> parseItems (orElse (initialSegments a) []))"
  by (induction acts) (auto simp: orElse_def Let_def split: option.splits)

text \<open>
  Claim C6. For every API response, segment parsing returns, for the first action whose
  segment list keeps any entry, the entries of that list whose derived text (newlines
  replaced by spaces, then trimmed) is not empty, each as its segment and in the order
  of the list; it drops exactly the entries whose derived text is empty (an entry
  without renderer has no text). With no such action the result is empty. On the sample
  response: entries that hold only newlines and spaces, or only the white space U+00A0,
  U+FEFF and U+2028, or an empty pre-joined string, or no renderer, are dropped; newlines
  inside a text become spaces, white space around it is trimmed, text runs are
  concatenated, and the three kept segments come in the order of their entries.
\<close>

theorem parseTranscriptSegments_keeps_nonempty:
  "parseTranscriptSegments resp =
     (case find (\<lambda>a. filter (\<lambda>i. spec_derivedText i \<noteq> []) (orElse (initialSegments a) []) \<noteq> [])
                (orElse (actions resp) []) of
        None \<Rightarrow> []
      | Some a \<Rightarrow> map spec_segment (filter (\<lambda>i. spec_derivedText i \<noteq> []) (orElse (initialSegments a) [])))
   \<and> parseTranscriptSegments mixedResponse = mixedSegments"
proof -
  have general: "parseTranscriptSegments resp =
     (case find (\<lambda>a. filter (\<lambda>i. spec_derivedText i \<noteq> []) (orElse (initialSegments a) []) \<noteq> [])
                (orElse (actions resp) []) of
        None \<Rightarrow> []
      | Some a \<Rightarrow> map spec_segment (filter (\<lambda>i. spec_derivedText i \<noteq> []) (orElse (initialSegments a) [])))"
    by (simp add: parseTranscriptSegments_def parseActions_find parseItems_spec split: option.splits)
  have sample: "parseTranscriptSegments mixedResponse = mixedSegments"
    by (simp add: parseTranscriptSegments_def mixedResponse_def mixedSegments_def sampleEntry_def
        orElse_def snippetText_def flattenText_def trim_examples parseInt_examples Let_def)
  from general sample show ?thesis by (rule conjI)
qed

subsection \<open>Transcription and language catalogue\<close>

lemma transcribeVideo_sample:
  "parseTranscriptSegments d \<noteq> [] \<Longrightarrow>
   transcribeVideo (sampleNetwork pd (ApiData d)) ''dQw4w9WgXcQ'' (jsonOptions l) =
     (if unplayable (playabilityOf pd)
      then Inl (VideoNotFoundError (''dQw4w9WgXcQ'' @ '' ('' @
             orElse (Option.bind (playerResponse pd) (\<lambda>p. Option.bind (playabilityStatus p) reason))
                    ''unknown reason'' @ '')''))
      else Inr \<lparr>videoId = ''dQw4w9WgXcQ'', language = orElse l ''en'',
                isAutoGenerated =
                  (Option.bind (find (matchesLanguage (orElse l ''en'')) (tracksOf pd)) kind = Some ''asr''),
                transcript = TranscriptSegments (parseTranscriptSegments d)\<rparr>)"
  by (simp add: transcribeVideo_def extractVideoId_bare [OF sampleId] fetchPageData_def
      fetchTranscriptViaApi_def sampleNetwork_def jsonOptions_def orElse_def Let_def)

lemma no_transcript:
  assumes "extractVideoId input = Some vid" "watchPage net vid = Page pd"
      "\<not> unplayable (playabilityOf pd)"
      "lang = orElse (opt_language opts) ''en''"
      "getTranscript net (chooseParams pd vid lang) (visitorData pd)
         = ApiErrorObject m (Some ''FAILED_PRECONDITION'')
       \<or> (\<exists>d. getTranscript net (chooseParams pd vid lang) (visitorData pd) = ApiData d
              \<and> parseTranscriptSegments d = [])"
  shows "transcribeVideo net input opts =
      (if tracksOf pd \<noteq> [] then Inl (LanguageNotAvailableError lang (map languageCode (tracksOf pd)))
       else Inl (CaptionsDisabledError
          (if (\<exists>d. getTranscript net (chooseParams pd vid lang) (visitorData pd) = ApiData d) then vid
           else ''(API precondition failed '' @ [CHR 0xE2, CHR 0x80, CHR 0x94]
                  @ '' captions may be unavailable)'')))"
  using assms unfolding transcribeVideo_def fetchPageData_def fetchTranscriptViaApi_def Let_def
  by (auto simp: orElse_def)

text \<open>
  Claim C1, as the code has it. Let the identifier resolve, the page be fetched and
  playable, and its caption-track list be empty. Then the catalogue listing succeeds
  with the empty list (it raises no error), and transcription fails with
  \<open>CaptionsDisabledError\<close> when the endpoint reports a failed precondition or the parsed
  segment list is empty. Neither of them fails with \<open>LanguageNotAvailableError\<close>.
\<close>

theorem no_tracks_outcomes:
  assumes "extractVideoId input = Some vid" and "watchPage net vid = Page pd"
      and "\<not> unplayable (playabilityOf pd)" and "tracksOf pd = []"
      and "lang = orElse (opt_language opts) ''en''"
      and "reply = getTranscript net (chooseParams pd vid lang) (visitorData pd)"
  shows "listAvailableLanguages net vid = Inr []
       \<and> (\<forall>m. reply = ApiErrorObject m (Some ''FAILED_PRECONDITION'') \<longrightarrow>
             (\<exists>w. transcribeVideo net input opts = Inl (CaptionsDisabledError w)))
       \<and> (\<forall>d. reply = ApiData d \<and> parseTranscriptSegments d = [] \<longrightarrow>
             transcribeVideo net input opts = Inl (CaptionsDisabledError vid))
       \<and> (\<forall>l a. transcribeVideo net input opts \<noteq> Inl (LanguageNotAvailableError l a))"
proof -
  have list: "listAvailableLanguages net vid = Inr []"
    using assms by (simp add: listAvailableLanguages_def fetchPageData_def)
  have dis: "\<And>m. reply = ApiErrorObject m (Some ''FAILED_PRECONDITION'') \<Longrightarrow>
      \<exists>w. transcribeVideo net input opts = Inl (CaptionsDisabledError w)"
    using assms no_transcript [of input vid net pd lang opts] by auto
  have emp: "\<And>d. reply = ApiData d \<Longrightarrow> parseTranscriptSegments d = [] \<Longrightarrow>
      transcribeVideo net input opts = Inl (CaptionsDisabledError vid)"
    using assms no_transcript [of input vid net pd lang opts] by auto
  have never: "\<And>l a. transcribeVideo net input opts \<noteq> Inl (LanguageNotAvailableError l a)"
    using assms unfolding transcribeVideo_def fetchPageData_def fetchTranscriptViaApi_def Let_def
    by (auto simp: orElse_def split: api_reply.splits)
  from list dis emp never show ?thesis by blast
qed

theorem no_tracks_outcomes_witness:
  "extractVideoId ''dQw4w9WgXcQ'' = Some ''dQw4w9WgXcQ''
   \<and> watchPage (sampleNetwork (playablePage []) preconditionFailed) ''dQw4w9WgXcQ'' = Page (playablePage [])
   \<and> \<not> unplayable (playabilityOf (playablePage [])) \<and> tracksOf (playablePage []) = []
   \<and> listAvailableLanguages (sampleNetwork (playablePage []) preconditionFailed) ''dQw4w9WgXcQ'' = Inr []
   \<and> (\<exists>w. transcribeVideo (sampleNetwork (playablePage []) preconditionFailed) ''dQw4w9WgXcQ''
             (jsonOptions None) = Inl (CaptionsDisabledError w))"
proof -
  have a: "extractVideoId ''dQw4w9WgXcQ'' = Some ''dQw4w9WgXcQ''"
    by (rule extractVideoId_bare [OF sampleId])
  have b: "watchPage (sampleNetwork (playablePage []) preconditionFailed) ''dQw4w9WgXcQ'' = Page (playablePage [])"
    by (simp add: sampleNetwork_def)
  have c: "\<not> unplayable (playabilityOf (playablePage []))"
    by (simp add: playablePage_def samplePage_def playabilityOf_def unplayable_def)
  have d: "tracksOf (playablePage []) = []"
    by (simp add: playablePage_def samplePage_def tracksOf_def orElse_def)
  have e: "getTranscript (sampleNetwork (playablePage []) preconditionFailed) p v = preconditionFailed" for p v
    by (simp add: sampleNetwork_def)
  note t = no_tracks_outcomes [OF a b c d refl refl, of "jsonOptions None", unfolded e]
  have "\<exists>m. preconditionFailed = ApiErrorObject m (Some ''FAILED_PRECONDITION'')"
    by (simp add: preconditionFailed_def)
  with t a b c d show ?thesis by blast
qed

text \<open>The catalogue listing of a playable page without caption tracks returns the
  empty list; it does not fail.\<close>

theorem listAvailableLanguages_no_tracks_returns:
  "tracksOf (playablePage []) = []
   \<and> listAvailableLanguages (sampleNetwork (playablePage []) preconditionFailed) ''dQw4w9WgXcQ'' = Inr []"
  by (simp add: listAvailableLanguages_def fetchPageData_def sampleNetwork_def playablePage_def
      samplePage_def playabilityOf_def unplayable_def tracksOf_def orElse_def)

text \<open>
  Claim C2. Let the identifier resolve and the page be fetched and playable, with the
  caption tracks \<open>en\<close> and \<open>de\<close> in this order, and let the requested language be \<open>fr\<close>.
  When the endpoint reports a failed precondition, or the parsed segment list is empty,
  the call fails with \<open>LanguageNotAvailableError\<close> for \<open>fr\<close> carrying exactly
  \<open>["en", "de"]\<close>.
\<close>

theorem language_unavailable_en_de:
  assumes "extractVideoId input = Some vid" and "watchPage net vid = Page pd"
      and "\<not> unplayable (playabilityOf pd)"
      and "map languageCode (tracksOf pd) = [''en'', ''de'']"
      and "opt_language opts = Some ''fr''"
      and "getTranscript net (chooseParams pd vid ''fr'') (visitorData pd)
             = ApiErrorObject m (Some ''FAILED_PRECONDITION'')
           \<or> (\<exists>d. getTranscript net (chooseParams pd vid ''fr'') (visitorData pd) = ApiData d
                  \<and> parseTranscriptSegments d = [])"
  shows "transcribeVideo net input opts = Inl (LanguageNotAvailableError ''fr'' [''en'', ''de''])"
proof -
  have "tracksOf pd \<noteq> []" using assms(4) by auto
  moreover have "''fr'' = orElse (opt_language opts) ''en''"
    using assms(5) by (simp add: orElse_def)
  ultimately show ?thesis
    using no_transcript [OF assms(1) assms(2) assms(3), of "''fr''" opts m] assms(4) assms(6)
    by simp
qed

theorem language_unavailable_en_de_witness:
  "transcribeVideo
     (sampleNetwork (playablePage [sampleTrack ''en'' None, sampleTrack ''de'' (Some ''asr'')]) preconditionFailed)
     ''dQw4w9WgXcQ'' (jsonOptions (Some ''fr''))
   = Inl (LanguageNotAvailableError ''fr'' [''en'', ''de''])"
proof -
  let ?pd = "playablePage [sampleTrack ''en'' None, sampleTrack ''de'' (Some ''asr'')]"
  have a: "extractVideoId ''dQw4w9WgXcQ'' = Some ''dQw4w9WgXcQ''"
    by (rule extractVideoId_bare [OF sampleId])
  have b: "watchPage (sampleNetwork ?pd preconditionFailed) ''dQw4w9WgXcQ'' = Page ?pd"
    by (simp add: sampleNetwork_def)
  have c: "\<not> unplayable (playabilityOf ?pd)"
    by (simp add: playablePage_def samplePage_def playabilityOf_def unplayable_def)
  have d: "map languageCode (tracksOf ?pd) = [''en'', ''de'']"
    by (simp add: playablePage_def samplePage_def tracksOf_def orElse_def sampleTrack_def)
  have e: "opt_language (jsonOptions (Some ''fr'')) = Some ''fr''"
    by (simp add: jsonOptions_def)
  have f: "getTranscript (sampleNetwork ?pd preconditionFailed) (chooseParams ?pd ''dQw4w9WgXcQ'' ''fr'') (visitorData ?pd)
             = ApiErrorObject (Some ''Precondition check failed.'') (Some ''FAILED_PRECONDITION'')
           \<or> (\<exists>d. getTranscript (sampleNetwork ?pd preconditionFailed) (chooseParams ?pd ''dQw4w9WgXcQ'' ''fr'') (visitorData ?pd) = ApiData d
                  \<and> parseTranscriptSegments d = [])"
    by (simp add: sampleNetwork_def preconditionFailed_def)
  show ?thesis by (rule language_unavailable_en_de [OF a b c d e f])
qed

text \<open>
  Claim C5, as the code has it. When no identifier can be parsed from the input,
  \<open>transcribeVideo\<close> fails with \<open>TranscriptionError\<close>, the class of the generic
  transcription failure, with a message that quotes the input; the sources have no
  error class of their own for an invalid identifier.
\<close>

theorem transcribeVideo_invalid_identifier:
  "extractVideoId input = None \<Longrightarrow>
   transcribeVideo net input opts =
     Inl (TranscriptionError (''Could not extract a valid YouTube video ID from: '' @ [DQ] @ input @ [DQ]))"
  by (simp add: transcribeVideo_def)

theorem transcribeVideo_invalid_identifier_witness:
  "extractVideoId ''hello'' = None
   \<and> transcribeVideo (sampleNetwork (playablePage []) (ApiData sampleResponse)) ''hello'' (jsonOptions None) =
     Inl (TranscriptionError (''Could not extract a valid YouTube video ID from: '' @ [DQ] @ ''hello'' @ [DQ]))"
  using transcribeVideo_invalid_identifier [OF extractVideoId_hello] extractVideoId_hello by simp

text \<open>At an input without identifier the failure is of the generic kind, not of the
  identifier-invalid kind.\<close>

theorem invalid_identifier_generic_kind:
  "extractVideoId ''hello'' = None
   \<and> transcribeVideo (sampleNetwork (playablePage []) preconditionFailed) ''hello'' (jsonOptions (Some ''en'')) =
       Inl (TranscriptionError (''Could not extract a valid YouTube video ID from: '' @ [DQ] @ ''hello'' @ [DQ]))
   \<and> errorKind (TranscriptionError (''Could not extract a valid YouTube video ID from: '' @ [DQ] @ ''hello'' @ [DQ]))
       = TranscriptionFailure
   \<and> TranscriptionFailure \<noteq> IdentifierInvalid"
  by (simp add: transcribeVideo_def extractVideoId_hello)

text \<open>
  Claim C8. For every successful call of \<open>transcribeVideo\<close>, the language of the result
  is the language the caller asked for, \<open>en\<close> when none was given, whichever token was
  sent to the endpoint.
\<close>

theorem transcribeVideo_language_requested:
  "transcribeVideo net input opts = Inr r \<Longrightarrow> language r = orElse (opt_language opts) ''en''"
  unfolding transcribeVideo_def Let_def
  by (auto split: option.splits sum.splits if_splits error.splits)

theorem transcribeVideo_language_requested_witness:
  "transcribeVideo (sampleNetwork (playablePage [sampleTrack ''en'' None]) (ApiData sampleResponse))
      ''dQw4w9WgXcQ'' (jsonOptions (Some ''de''))
     = Inr \<lparr>videoId = ''dQw4w9WgXcQ'', language = ''de'', isAutoGenerated = False,
            transcript = TranscriptSegments sampleSegments\<rparr>
   \<and> language \<lparr>videoId = ''dQw4w9WgXcQ'', language = ''de'', isAutoGenerated = False,
            transcript = TranscriptSegments sampleSegments\<rparr> = orElse (opt_language (jsonOptions (Some ''de''))) ''en''"
proof -
  have run: "transcribeVideo (sampleNetwork (playablePage [sampleTrack ''en'' None]) (ApiData sampleResponse))
      ''dQw4w9WgXcQ'' (jsonOptions (Some ''de''))
     = Inr \<lparr>videoId = ''dQw4w9WgXcQ'', language = ''de'', isAutoGenerated = False,
            transcript = TranscriptSegments sampleSegments\<rparr>"
    by (simp add: transcribeVideo_sample parse_sample sampleSegments_def playablePage_def samplePage_def
        playabilityOf_def unplayable_def tracksOf_def orElse_def sampleTrack_def matchesLanguage_def
        startsWith_def toLowerCase_def lowerChar_def)
  from transcribeVideo_language_requested [OF run] run show ?thesis by simp
qed

lemma fetchTranscriptViaApi_watchPage:
  "fetchTranscriptViaApi (net\<lparr>watchPage := f\<rparr>) p v = fetchTranscriptViaApi net p v"
  by (simp add: fetchTranscriptViaApi_def)

lemma withStatusOK_facts:
  "tracksOf (withStatusOK pd) = tracksOf pd"
  "\<not> unplayable (playabilityOf (withStatusOK pd))"
  "chooseParams (withStatusOK pd) vid lang = chooseParams pd vid lang"
  "visitorData (withStatusOK pd) = visitorData pd"
  by (simp_all add: withStatusOK_def tracksOf_def playabilityOf_def unplayable_def chooseParams_def
      split: option.splits)

text \<open>
  Claim C9. If the player document of the page state is absent, or present without a
  playability status, the playability check passes: neither the catalogue listing nor
  \<open>transcribeVideo\<close> raises \<open>VideoNotFoundError\<close>, and each gives the result it gives
  for the same page state with the status \<open>OK\<close>.
\<close>

theorem playability_absent_passes:
  assumes "watchPage net vid = Page pd"
      and "playerResponse pd = None
           \<or> (\<exists>p. playerResponse pd = Some p \<and> Option.bind (playabilityStatus p) status = None)"
      and "net' = net\<lparr>watchPage := (watchPage net)(vid := Page (withStatusOK pd))\<rparr>"
  shows "(\<forall>w. listAvailableLanguages net vid \<noteq> Inl (VideoNotFoundError w))
       \<and> listAvailableLanguages net vid = listAvailableLanguages net' vid
       \<and> (extractVideoId input = Some vid \<longrightarrow>
            (\<forall>w. transcribeVideo net input opts \<noteq> Inl (VideoNotFoundError w))
            \<and> transcribeVideo net input opts = transcribeVideo net' input opts)"
proof -
  have play: "\<not> unplayable (playabilityOf pd)"
    using assms(2) by (auto simp: playabilityOf_def unplayable_def)
  have l1: "listAvailableLanguages net vid \<noteq> Inl (VideoNotFoundError w)" for w
    using assms(1) play by (simp add: listAvailableLanguages_def fetchPageData_def)
  have l2: "listAvailableLanguages net vid = listAvailableLanguages net' vid"
    using assms(1) assms(3) play
    by (simp add: listAvailableLanguages_def fetchPageData_def withStatusOK_facts)
  have t1: "transcribeVideo net input opts \<noteq> Inl (VideoNotFoundError w)"
    if "extractVideoId input = Some vid" for w
    using that assms(1) play
    unfolding transcribeVideo_def fetchPageData_def fetchTranscriptViaApi_def Let_def
    by (auto split: api_reply.splits)
  have t2: "transcribeVideo net input opts = transcribeVideo net' input opts"
    if "extractVideoId input = Some vid"
    using that assms(1) assms(3) play
    by (simp add: transcribeVideo_def fetchPageData_def withStatusOK_facts Let_def
        fetchTranscriptViaApi_watchPage cong: sum.case_cong error.case_cong if_cong)
  from l1 l2 t1 t2 show ?thesis by blast
qed

theorem playability_absent_passes_witness:
  "playerResponse (samplePage None) = None
   \<and> extractVideoId ''dQw4w9WgXcQ'' = Some ''dQw4w9WgXcQ''
   \<and> listAvailableLanguages (sampleNetwork (samplePage None) (ApiData sampleResponse)) ''dQw4w9WgXcQ'' = Inr []
   \<and> transcribeVideo (sampleNetwork (samplePage None) (ApiData sampleResponse)) ''dQw4w9WgXcQ'' (jsonOptions None)
       = Inr \<lparr>videoId = ''dQw4w9WgXcQ'', language = ''en'', isAutoGenerated = False,
              transcript = TranscriptSegments sampleSegments\<rparr>
   \<and> (\<forall>w. transcribeVideo (sampleNetwork (samplePage None) (ApiData sampleResponse)) ''dQw4w9WgXcQ''
             (jsonOptions None) \<noteq> Inl (VideoNotFoundError w))"
proof -
  let ?net = "sampleNetwork (samplePage None) (ApiData sampleResponse)"
  have a: "watchPage ?net ''dQw4w9WgXcQ'' = Page (samplePage None)"
    by (simp add: sampleNetwork_def)
  have b: "playerResponse (samplePage None) = None" by (simp add: samplePage_def)
  have c: "extractVideoId ''dQw4w9WgXcQ'' = Some ''dQw4w9WgXcQ''"
    by (rule extractVideoId_bare [OF sampleId])
  have d: "listAvailableLanguages ?net ''dQw4w9WgXcQ'' = Inr []"
    by (simp add: listAvailableLanguages_def fetchPageData_def sampleNetwork_def samplePage_def
        playabilityOf_def unplayable_def tracksOf_def orElse_def)
  have e: "transcribeVideo ?net ''dQw4w9WgXcQ'' (jsonOptions None)
       = Inr \<lparr>videoId = ''dQw4w9WgXcQ'', language = ''en'', isAutoGenerated = False,
              transcript = TranscriptSegments sampleSegments\<rparr>"
    by (simp add: transcribeVideo_sample parse_sample sampleSegments_def samplePage_def
        playabilityOf_def unplayable_def tracksOf_def orElse_def)
  from playability_absent_passes [OF a disjI1 [OF b] refl, of "''dQw4w9WgXcQ''" "jsonOptions None"] b c d e
  show ?thesis by blast
qed

text \<open>
  Claim C10. For every successful call of \<open>transcribeVideo\<close>: when no caption track has
  a language code that starts with the requested language (both in lower case), the flag
  \<open>isAutoGenerated\<close> is false; the flag is true only when such a track exists with the
  kind \<open>asr\<close>, namely exactly when the first such track has that kind.
\<close>

theorem isAutoGenerated_matching_track:
  assumes "transcribeVideo net input opts = Inr r" and "extractVideoId input = Some vid"
      and "watchPage net vid = Page pd" and "lang = orElse (opt_language opts) ''en''"
  shows "((\<forall>t \<in> set (tracksOf pd). \<not> matchesLanguage lang t) \<longrightarrow> \<not> isAutoGenerated r)
       \<and> (isAutoGenerated r \<longrightarrow> (\<exists>t \<in> set (tracksOf pd). matchesLanguage lang t \<and> kind t = Some ''asr''))
       \<and> (isAutoGenerated r \<longleftrightarrow>
            (\<exists>t. find (matchesLanguage lang) (tracksOf pd) = Some t \<and> kind t = Some ''asr''))"
proof -
  have first: "isAutoGenerated r \<longleftrightarrow>
      (\<exists>t. find (matchesLanguage lang) (tracksOf pd) = Some t \<and> kind t = Some ''asr'')"
    using assms unfolding transcribeVideo_def fetchPageData_def Let_def
    by (auto simp: bind_eq_Some_conv split: option.splits sum.splits if_splits error.splits)
  have "\<exists>t \<in> set (tracksOf pd). matchesLanguage lang t \<and> kind t = Some ''asr''"
    if "find (matchesLanguage lang) (tracksOf pd) = Some t" "kind t = Some ''asr''" for t
    using that by (auto simp: find_Some_iff)
  with first show ?thesis by blast
qed

theorem isAutoGenerated_matching_track_witness:
  "transcribeVideo (sampleNetwork (playablePage [sampleTrack ''en'' None, sampleTrack ''de-DE'' (Some ''asr'')])
        (ApiData sampleResponse)) ''dQw4w9WgXcQ'' (jsonOptions (Some ''DE''))
     = Inr \<lparr>videoId = ''dQw4w9WgXcQ'', language = ''DE'', isAutoGenerated = True,
            transcript = TranscriptSegments sampleSegments\<rparr>
   \<and> (\<exists>t \<in> set (tracksOf (playablePage [sampleTrack ''en'' None, sampleTrack ''de-DE'' (Some ''asr'')])).
         matchesLanguage ''DE'' t \<and> kind t = Some ''asr'')"
proof -
  let ?pd = "playablePage [sampleTrack ''en'' None, sampleTrack ''de-DE'' (Some ''asr'')]"
  let ?r = "\<lparr>videoId = ''dQw4w9WgXcQ'', language = ''DE'', isAutoGenerated = True,
            transcript = TranscriptSegments sampleSegments\<rparr>"
  have run: "transcribeVideo (sampleNetwork ?pd (ApiData sampleResponse)) ''dQw4w9WgXcQ'' (jsonOptions (Some ''DE''))
     = Inr ?r"
    by (simp add: transcribeVideo_sample parse_sample sampleSegments_def playablePage_def samplePage_def
        playabilityOf_def unplayable_def tracksOf_def orElse_def sampleTrack_def matchesLanguage_def
        startsWith_def toLowerCase_def lowerChar_def char_of_eq_iff eq_char_of_iff)
  have a: "extractVideoId ''dQw4w9WgXcQ'' = Some ''dQw4w9WgXcQ''"
    by (rule extractVideoId_bare [OF sampleId])
  have b: "watchPage (sampleNetwork ?pd (ApiData sampleResponse)) ''dQw4w9WgXcQ'' = Page ?pd"
    by (simp add: sampleNetwork_def)
  have c: "''DE'' = orElse (opt_language (jsonOptions (Some ''DE''))) ''en''"
    by (simp add: jsonOptions_def orElse_def)
  from isAutoGenerated_matching_track [OF run a b c] run show ?thesis by simp
qed

end
